(* ===== verification/Prelude.thy ===== *)
theory Prelude
  imports Main "HOL-Library.Word"
begin

text \<open>
  Shared vocabulary of the development. A JavaScript string is a sequence of UTF-16 code
  units, so it is modelled as a list of 16-bit words (\<open>jstr\<close>); \<open>length\<close> of such a
  list is the source's \<open>.length\<close>, and \<open>take\<close> is \<open>.slice(0, n)\<close>. The string
  literals of the source are ASCII, and \<open>js\<close> turns an Isabelle literal into its code
  units. A decoded JSON body is either an array, \<open>null\<close>, or some other value; the
  components test exactly this distinction (\<open>Array.isArray\<close>, a method call on the body).
  Two collections carry the evaluation of concrete runs: \<open>js_simps\<close> rewrites string
  literals and the ECMAScript built-ins (trim, split, Number) on them, and \<open>view_simps\<close>
  evaluates a handler segment on a settled request, one rule per outcome branch.
\<close>

named_theorems js_simps "rules that evaluate JS string literals and string operations"
named_theorems view_simps "rules that evaluate handlers of the product view"

type_synonym code_unit = "16 word"
type_synonym jstr = "code_unit list"

definition js :: "string \<Rightarrow> jstr" where
  "js s = map (\<lambda>c. of_nat (of_char c)) s"

datatype 'a jsdata = Arr "'a list" | JNull | JOther

text \<open>Truthiness of a JS string: only the empty string is falsy.\<close>

definition truthy :: "jstr \<Rightarrow> bool" where
  "truthy s \<longleftrightarrow> s \<noteq> []"

lemma js_Nil [simp, js_simps]: "js [] = []"
  by (simp add: js_def)

lemma js_Cons [simp, js_simps]: "js (c # s) = of_nat (of_char c) # js s"
  by (simp add: js_def)

lemma js_append [js_simps]: "js (s @ t) = js s @ js t"
  by (simp add: js_def)

lemma length_js [simp]: "length (js s) = length s"
  by (simp add: js_def)

lemma js_eq_Nil_iff [simp]: "js s = [] \<longleftrightarrow> s = []"
  by (simp add: js_def)

lemma truthy_iff [simp, js_simps]: "truthy s \<longleftrightarrow> s \<noteq> []"
  by (simp add: truthy_def)

lemma of_char_code_unit_inj:
  "(of_nat (of_char c) :: code_unit) = of_nat (of_char d) \<longleftrightarrow> c = d"
proof -
  have "of_char c < (65536::nat)" "of_char d < (65536::nat)"
    using nat_of_char_less_256 [of c] nat_of_char_less_256 [of d] by linarith+
  then have "take_bit LENGTH(16) (of_char c :: nat) = of_char c"
    and "take_bit LENGTH(16) (of_char d :: nat) = of_char d"
    by (simp_all add: take_bit_nat_eq_self_iff)
  then show ?thesis
    by (simp add: word_of_nat_eq_iff)
qed

lemma js_inj [simp]: "js s = js t \<longleftrightarrow> s = t"
proof (induction s arbitrary: t)
  case Nil
  then show ?case by (auto dest: sym)
next
  case (Cons c s)
  then show ?case
    by (cases t) (auto simp: of_char_code_unit_inj)
qed

subsection \<open>Generic list facts\<close>

lemma all_set_dropWhile_iff [simp]:
  "(\<forall>x \<in> set (dropWhile P xs). P x) \<longleftrightarrow> (\<forall>x \<in> set xs. P x)"
  by (induction xs) auto

text \<open>Removing the element at a position, as a settled promise leaves the pending set.\<close>

definition del_at :: "nat \<Rightarrow> 'a list \<Rightarrow> 'a list" where
  "del_at i xs = take i xs @ drop (Suc i) xs"

lemma del_at_split: "i < length xs \<Longrightarrow> xs = take i xs @ xs ! i # drop (Suc i) xs"
  by (simp add: id_take_nth_drop)

lemma length_filter_del_at:
  "i < length xs \<Longrightarrow>
     length (filter P xs) = length (filter P (del_at i xs)) + (if P (xs ! i) then 1 else 0)"
  by (subst del_at_split [of i xs]) (simp_all add: del_at_def)

lemma count_list_del_at:
  "i < length xs \<Longrightarrow>
     count_list xs x = count_list (del_at i xs) x + (if xs ! i = x then 1 else 0)"
  by (subst del_at_split [of i xs]) (simp_all add: del_at_def)

lemma set_del_at_subset: "set (del_at i xs) \<subseteq> set xs"
  by (auto simp: del_at_def dest: in_set_takeD in_set_dropD)

lemma length_del_at [simp]: "i < length xs \<Longrightarrow> length (del_at i xs) = length xs - 1"
  by (simp add: del_at_def)

lemma del_at_simps [simp]:
  "del_at 0 (x # xs) = xs"
  "del_at (Suc i) (x # xs) = x # del_at i xs"
  by (simp_all add: del_at_def)

end
