(* ===== verification/ApiClient.thy ===== *)
theory ApiClient
  imports Prelude
begin

text \<open>
  The API client of \<open>src/src/component/ProductURl.tsx\<close>: three functions that each make
  one axios request and turn any failure into an \<open>Error\<close> with a fixed message. An
  async function is split at its \<open>await\<close>: the request it sends (\<open>_request\<close>) and
  what it does with the settled response (the function itself, from an \<open>outcome\<close> to
  \<open>jstr + 'a\<close>, \<open>Inl\<close> being the message of the thrown \<open>Error\<close>). An outcome is
  either a response with its HTTP status and decoded body, or no response at all (network
  error). axios is a library: of it, only the settling rule the client depends on is modelled
  (\<open>axios_settle\<close>): the call resolves exactly for the statuses its default
  \<open>validateStatus\<close> accepts, \<open>200 \<le> status < 300\<close>, and rejects otherwise.
\<close>

definition API_URL :: jstr where
  "API_URL = js ''http://localhost:3000/api/v1/products''"

definition API_Category :: jstr where
  "API_Category = js ''http://localhost:3000/api/v1/categories''"

text \<open>A request: \<open>Post endpoint url\<close> is \<open>axios.post(endpoint, { url })\<close>.\<close>

datatype request = Post jstr jstr | Get jstr

datatype 'a outcome = Reply nat 'a | NoReply

definition axios_settle :: "'a outcome \<Rightarrow> 'a option" where
  "axios_settle r = (case r of
       Reply status body \<Rightarrow> (if 200 \<le> status \<and> status < 300 then Some body else None)
     | NoReply \<Rightarrow> None)"

text \<open>The shared \<open>try { return response.data } catch { throw new Error(msg) }\<close>.\<close>

definition catch_as :: "jstr \<Rightarrow> 'a outcome \<Rightarrow> jstr + 'a" where
  "catch_as msg r = (case axios_settle r of Some d \<Rightarrow> Inr d | None \<Rightarrow> Inl msg)"

definition submit_failed_msg :: jstr where
  "submit_failed_msg = js ''Failed to submit URL. Please try again.''"

definition fetch_products_failed_msg :: jstr where
  "fetch_products_failed_msg = js ''Failed to fetch products. Please try again.''"

definition fetch_category_failed_msg :: jstr where
  "fetch_category_failed_msg = js ''Failed to fetch category. Please try again.''"

definition submitProductURL_request :: "jstr \<Rightarrow> request" where
  "submitProductURL_request u = Post API_URL u"

definition submitProductURL :: "'a outcome \<Rightarrow> jstr + 'a" where
  "submitProductURL r = catch_as submit_failed_msg r"

definition fetchProducts_request :: request where
  "fetchProducts_request = Get API_URL"

definition fetchProducts :: "'a outcome \<Rightarrow> jstr + 'a" where
  "fetchProducts r = catch_as fetch_products_failed_msg r"

definition fetchCategories_request :: request where
  "fetchCategories_request = Get API_Category"

definition fetchCategories :: "'a outcome \<Rightarrow> jstr + 'a" where
  "fetchCategories r = catch_as fetch_category_failed_msg r"

subsection \<open>Evaluation rules\<close>

lemma axios_settle_simps [simp]:
  "axios_settle (Reply s d) = (if 200 \<le> s \<and> s < 300 then Some d else None)"
  "axios_settle NoReply = None"
  by (simp_all add: axios_settle_def)

lemma catch_as_Inr_iff:
  "catch_as msg r = Inr d \<longleftrightarrow> axios_settle r = Some d"
  by (simp add: catch_as_def split: option.splits)

lemma catch_as_Inl_iff:
  "catch_as msg r = Inl m \<longleftrightarrow> axios_settle r = None \<and> m = msg"
  by (auto simp: catch_as_def split: option.splits)

lemmas api_simps = submitProductURL_def fetchProducts_def fetchCategories_def catch_as_def

lemma api_messages_distinct:
  "submit_failed_msg \<noteq> fetch_products_failed_msg"
  "submit_failed_msg \<noteq> fetch_category_failed_msg"
  "fetch_products_failed_msg \<noteq> fetch_category_failed_msg"
  by (simp_all add: submit_failed_msg_def fetch_products_failed_msg_def fetch_category_failed_msg_def)

subsection \<open>Properties\<close>

text \<open>
  C20: errors are opaque. Two rejected calls of the same client function give the same
  result, whatever status code or body caused them: the message of the thrown Error is the
  fixed text of that function, and nothing of the original error survives.
\<close>

theorem api_errors_opaque:
  assumes "axios_settle r1 = None" and "axios_settle r2 = None"
  shows "submitProductURL r1 = Inl submit_failed_msg \<and> submitProductURL r2 = submitProductURL r1
       \<and> fetchProducts r1 = Inl fetch_products_failed_msg \<and> fetchProducts r2 = fetchProducts r1
       \<and> fetchCategories r1 = Inl fetch_category_failed_msg \<and> fetchCategories r2 = fetchCategories r1"
  using assms by (simp add: api_simps)

theorem api_errors_opaque_witness:
  "axios_settle (Reply 404 (js ''Not Found'')) = None \<and> axios_settle (NoReply :: jstr outcome) = None
   \<and> submitProductURL (Reply 404 (js ''Not Found'')) = Inl submit_failed_msg
   \<and> submitProductURL (NoReply :: jstr outcome) = submitProductURL (Reply 404 (js ''Not Found''))
   \<and> fetchProducts (Reply 404 (js ''Not Found'')) = Inl fetch_products_failed_msg
   \<and> fetchProducts (NoReply :: jstr outcome) = fetchProducts (Reply 404 (js ''Not Found''))
   \<and> fetchCategories (Reply 404 (js ''Not Found'')) = Inl fetch_category_failed_msg
   \<and> fetchCategories (NoReply :: jstr outcome) = fetchCategories (Reply 404 (js ''Not Found''))"
  using api_errors_opaque [of "Reply 404 (js ''Not Found'')" NoReply] by simp

end
