(* ===== verification/JsString.thy ===== *)
theory JsString
  imports Prelude
begin

text \<open>
  The ECMAScript string methods the page calls, on strings of UTF-16 code units:
  \<open>String.prototype.trim\<close> (removes leading and trailing WhiteSpace and
  LineTerminator code points; all of them lie in the Basic Multilingual Plane outside the
  surrogate range, so removing them unit by unit is the same) and
  \<open>String.prototype.split\<close> with a one-unit separator and no limit. They are library
  semantics (ECMA-262, sections 12.2, 12.3, 22.1.3.23 and 22.1.3.32), not code of the
  repository. Proved here: \<open>trim\<close> returns the infix of its argument between two
  whitespace runs and is idempotent, and \<open>split\<close> is undone by joining the pieces
  with the separator.
\<close>

definition is_js_whitespace :: "code_unit \<Rightarrow> bool" where
  "is_js_whitespace c \<longleftrightarrow>
     c = 0x09 \<or> c = 0x0B \<or> c = 0x0C \<or> c = 0x20 \<or> c = 0xA0 \<or> c = 0xFEFF
   \<or> c = 0x1680 \<or> (0x2000 \<le> c \<and> c \<le> 0x200A) \<or> c = 0x202F \<or> c = 0x205F \<or> c = 0x3000
   \<or> c = 0x0A \<or> c = 0x0D \<or> c = 0x2028 \<or> c = 0x2029"

definition js_trim :: "jstr \<Rightarrow> jstr" where
  "js_trim s = rev (dropWhile is_js_whitespace (rev (dropWhile is_js_whitespace s)))"

fun js_split :: "code_unit \<Rightarrow> jstr \<Rightarrow> jstr list" where
  "js_split c [] = [[]]"
| "js_split c (x # xs) =
     (if x = c then [] # js_split c xs
      else (let ws = js_split c xs in (x # hd ws) # tl ws))"

text \<open>\<open>Array.prototype.join\<close> with a one-unit separator, the inverse of \<open>js_split\<close>.\<close>

fun js_join :: "code_unit \<Rightarrow> jstr list \<Rightarrow> jstr" where
  "js_join c [] = []"
| "js_join c [w] = w"
| "js_join c (w # v # ws) = w @ c # js_join c (v # ws)"

lemmas js_string_eval [js_simps] = is_js_whitespace_def js_trim_def js_split.simps js_join.simps

subsection \<open>trim\<close>

lemma js_trim_simps:
  "js_trim [] = []"
  "is_js_whitespace x \<Longrightarrow> js_trim (x # s) = js_trim s"
  by (simp_all add: js_trim_def)

lemma dropWhile_rev_split:
  "\<exists>q. xs = rev (dropWhile P (rev xs)) @ q \<and> (\<forall>x \<in> set q. P x)"
proof -
  have "rev xs = takeWhile P (rev xs) @ dropWhile P (rev xs)"
    by simp
  then have "xs = rev (dropWhile P (rev xs)) @ rev (takeWhile P (rev xs))"
    by (metis rev_append rev_rev_ident)
  moreover have "\<forall>x \<in> set (rev (takeWhile P (rev xs))). P x"
    by (auto dest: set_takeWhileD)
  ultimately show ?thesis by blast
qed

lemma js_trim_infix:
  "\<exists>p q. s = p @ js_trim s @ q \<and> (\<forall>x \<in> set p. is_js_whitespace x) \<and> (\<forall>x \<in> set q. is_js_whitespace x)"
proof -
  let ?d = "dropWhile is_js_whitespace s"
  have s: "s = takeWhile is_js_whitespace s @ ?d"
    by simp
  obtain q where q: "?d = js_trim s @ q" and wq: "\<forall>x \<in> set q. is_js_whitespace x"
    using dropWhile_rev_split [of ?d is_js_whitespace] by (auto simp: js_trim_def)
  have "\<forall>x \<in> set (takeWhile is_js_whitespace s). is_js_whitespace x"
    by (auto dest: set_takeWhileD)
  with s q wq show ?thesis by (metis append.assoc)
qed

lemma js_trim_ends:
  assumes "js_trim s \<noteq> []"
  shows "\<not> is_js_whitespace (hd (js_trim s)) \<and> \<not> is_js_whitespace (last (js_trim s))"
proof
  let ?d = "dropWhile is_js_whitespace s"
  let ?t = "dropWhile is_js_whitespace (rev ?d)"
  have t: "js_trim s = rev ?t" by (simp add: js_trim_def)
  with assms have "?t \<noteq> []" by simp
  then show "\<not> is_js_whitespace (last (js_trim s))"
    using hd_dropWhile [of is_js_whitespace "rev ?d"] t by (simp add: last_rev)
  have "?d \<noteq> []" using \<open>?t \<noteq> []\<close> by (cases ?d) auto
  have "hd (js_trim s) = hd ?d"
  proof -
    have "rev ?d = takeWhile is_js_whitespace (rev ?d) @ ?t" by simp
    then have "?d = rev ?t @ rev (takeWhile is_js_whitespace (rev ?d))"
      by (metis rev_append rev_rev_ident)
    moreover have "rev ?t \<noteq> []"
      using \<open>?t \<noteq> []\<close> by (metis Nil_is_rev_conv)
    ultimately show ?thesis
      using t by (metis hd_append)
  qed
  then show "\<not> is_js_whitespace (hd (js_trim s))"
    using hd_dropWhile [of is_js_whitespace s] \<open>?d \<noteq> []\<close> by simp
qed

lemma js_trim_id:
  assumes "s = [] \<or> (\<not> is_js_whitespace (hd s) \<and> \<not> is_js_whitespace (last s))"
  shows "js_trim s = s"
  using assms
proof
  assume "\<not> is_js_whitespace (hd s) \<and> \<not> is_js_whitespace (last s)"
  moreover have "s \<noteq> [] \<Longrightarrow> dropWhile is_js_whitespace s = s"
    using calculation by (cases s) auto
  moreover have "s \<noteq> [] \<Longrightarrow> dropWhile is_js_whitespace (rev s) = rev s"
    using calculation by (cases "rev s") (auto simp: last_rev [symmetric])
  ultimately show ?thesis
    by (cases "s = []") (simp_all add: js_trim_def)
qed (simp add: js_trim_def)

lemma js_trim_idem [simp]: "js_trim (js_trim s) = js_trim s"
  using js_trim_ends [of s] by (intro js_trim_id) blast

lemma js_trim_Nil_iff: "js_trim s = [] \<longleftrightarrow> (\<forall>x \<in> set s. is_js_whitespace x)"
  by (simp add: js_trim_def dropWhile_eq_Nil_conv)

subsection \<open>split\<close>

lemma js_join_Cons_hd: "js_join c ((x # w) # ws) = x # js_join c (w # ws)"
  by (cases ws) simp_all

lemma js_split_not_Nil [simp]: "js_split c s \<noteq> []"
  by (induction s) (auto simp: Let_def)

lemma js_split_Cons_other:
  "x \<noteq> c \<Longrightarrow> js_split c (x # xs) = (x # hd (js_split c xs)) # tl (js_split c xs)"
  by (simp add: Let_def)

declare js_split.simps(2) [simp del]

lemma js_split_Cons_sep [simp]: "js_split c (c # xs) = [] # js_split c xs"
  by (simp add: js_split.simps)

lemma js_split_join: "js_join c (js_split c s) = s"
proof (induction s)
  case Nil
  then show ?case by simp
next
  case (Cons x xs)
  show ?case
  proof (cases "x = c")
    case True
    with Cons.IH show ?thesis
      by (cases "js_split c xs") auto
  next
    case False
    obtain w ws where w: "js_split c xs = w # ws"
      by (cases "js_split c xs") simp_all
    with Cons.IH False show ?thesis
      by (simp add: js_split_Cons_other js_join_Cons_hd)
  qed
qed

lemma js_split_pieces: "w \<in> set (js_split c s) \<Longrightarrow> c \<notin> set w"
proof (induction s arbitrary: w)
  case Nil
  then show ?case by simp
next
  case (Cons x xs)
  obtain v vs where v: "js_split c xs = v # vs"
    by (cases "js_split c xs") simp_all
  show ?case
  proof (cases "x = c")
    case True
    with Cons v show ?thesis by auto
  next
    case False
    with Cons v show ?thesis by (auto simp: js_split_Cons_other)
  qed
qed

lemma length_js_split: "length (js_split c s) = Suc (count_list s c)"
proof (induction s)
  case Nil
  then show ?case by simp
next
  case (Cons x xs)
  then show ?case
    by (cases "js_split c xs") (auto simp: js_split_Cons_other)
qed

end
