(* ===== verification/JsNumber.thy ===== *)
theory JsNumber
  imports Complex_Main JsString
begin

text \<open>
  \<open>Number(s)\<close> on a string (ECMA-262 StringToNumber, 7.1.4.1.1) and the decimal
  rendering of an integer (Number::toString, 6.1.6.1.20, as React applies it to
  \<open>value={category.id}\<close>). Library semantics, not repository code. A number is
  \<open>Finite q\<close> with an exact rational \<open>q\<close>, one of the infinities, or \<open>NaN\<close>; the model
  computes the exact value of the literal where JS rounds it to the nearest double, and the
  two agree on all integers of magnitude below \<open>2^53\<close>, the category identifiers the page
  passes to \<open>Number\<close>. The grammar is the one of the standard: surrounding whitespace is
  trimmed, the empty string is 0, a decimal literal has an optional sign, digits with an
  optional fraction and an optional exponent, or is \<open>Infinity\<close>; \<open>0b\<close>, \<open>0o\<close> and
  \<open>0x\<close> literals take no sign; numeric separators are not accepted; anything else is NaN.
  The fact the page relies on is the round trip
  \<open>js_Number (int_to_jstr i) = Finite (of_int i)\<close> (\<open>js_Number_int_to_jstr\<close>), which
  \<open>Render\<close> uses to show that each option of the category select filters its category.
\<close>

datatype js_number = Finite rat | PosInf | NegInf | NaN

definition is_dec_digit :: "code_unit \<Rightarrow> bool" where
  "is_dec_digit c \<longleftrightarrow> 0x30 \<le> c \<and> c \<le> 0x39"

text \<open>Value of a hexadecimal digit; 16 for a unit that is not one.\<close>

definition hex_value :: "code_unit \<Rightarrow> nat" where
  "hex_value c =
     (if 0x30 \<le> c \<and> c \<le> 0x39 then unat c - 0x30
      else if 0x61 \<le> c \<and> c \<le> 0x66 then unat c - 0x57
      else if 0x41 \<le> c \<and> c \<le> 0x46 then unat c - 0x37
      else 16)"

definition is_radix_digit :: "nat \<Rightarrow> code_unit \<Rightarrow> bool" where
  "is_radix_digit b c \<longleftrightarrow> hex_value c < b"

definition digits_value :: "nat \<Rightarrow> jstr \<Rightarrow> nat" where
  "digits_value b ds = foldl (\<lambda>n d. n * b + hex_value d) 0 ds"

text \<open>A whole string that is a non-empty run of base-\<open>b\<close> digits.\<close>

definition digits :: "nat \<Rightarrow> jstr \<Rightarrow> nat option" where
  "digits b ds = (if ds \<noteq> [] \<and> list_all (is_radix_digit b) ds then Some (digits_value b ds) else None)"

definition parse_non_decimal :: "jstr \<Rightarrow> nat option" where
  "parse_non_decimal s = (case s of
       z # p # ds \<Rightarrow>
         (if z = 0x30 then
            (if p = 0x62 \<or> p = 0x42 then digits 2 ds
             else if p = 0x6F \<or> p = 0x4F then digits 8 ds
             else if p = 0x78 \<or> p = 0x58 then digits 16 ds
             else None)
          else None)
     | _ \<Rightarrow> None)"

definition parse_signed_integer :: "jstr \<Rightarrow> int option" where
  "parse_signed_integer s = (case s of
       c # ds \<Rightarrow>
         (if c = 0x2B then map_option int (digits 10 ds)
          else if c = 0x2D then map_option (\<lambda>n. - int n) (digits 10 ds)
          else map_option int (digits 10 s))
     | [] \<Rightarrow> None)"

definition scale10 :: "nat \<Rightarrow> int \<Rightarrow> rat" where
  "scale10 m e = (if 0 \<le> e then of_nat m * 10 ^ nat e else of_nat m / 10 ^ nat (- e))"

definition parse_unsigned_decimal :: "jstr \<Rightarrow> js_number option" where
  "parse_unsigned_decimal s =
     (if s = js ''Infinity'' then Some PosInf
      else
        let ip = takeWhile is_dec_digit s;
            r1 = dropWhile is_dec_digit s;
            dot = (r1 \<noteq> [] \<and> hd r1 = 0x2E);
            r1' = (if dot then tl r1 else r1);
            fp = takeWhile is_dec_digit r1';
            r2 = dropWhile is_dec_digit r1';
            ex = (if r2 = [] then Some 0
                  else if hd r2 = 0x65 \<or> hd r2 = 0x45 then parse_signed_integer (tl r2)
                  else None)
        in if ip = [] \<and> fp = [] then None
           else map_option (\<lambda>e. Finite (scale10 (digits_value 10 (ip @ fp)) (e - int (length fp)))) ex)"

fun negate :: "js_number \<Rightarrow> js_number" where
  "negate (Finite q) = Finite (- q)"
| "negate PosInf = NegInf"
| "negate NegInf = PosInf"
| "negate NaN = NaN"

definition parse_numeric_literal :: "jstr \<Rightarrow> js_number option" where
  "parse_numeric_literal t = (case t of
       c # r \<Rightarrow>
         (if c = 0x2B then parse_unsigned_decimal r
          else if c = 0x2D then map_option negate (parse_unsigned_decimal r)
          else (case parse_non_decimal t of
                  Some n \<Rightarrow> Some (Finite (of_nat n))
                | None \<Rightarrow> parse_unsigned_decimal t))
     | [] \<Rightarrow> None)"

definition js_Number :: "jstr \<Rightarrow> js_number" where
  "js_Number s =
     (let t = js_trim s in
      if t = [] then Finite 0
      else (case parse_numeric_literal t of Some n \<Rightarrow> n | None \<Rightarrow> NaN))"

fun nat_to_jstr :: "nat \<Rightarrow> jstr" where
  "nat_to_jstr n =
     (if n < 10 then [of_nat (0x30 + n)]
      else nat_to_jstr (n div 10) @ [of_nat (0x30 + n mod 10)])"

definition int_to_jstr :: "int \<Rightarrow> jstr" where
  "int_to_jstr i = (if i < 0 then 0x2D # nat_to_jstr (nat (- i)) else nat_to_jstr (nat i))"

declare nat_to_jstr.simps [simp del]

subsection \<open>Digits\<close>

lemma dec_digit_unit:
  assumes "d < 10"
  shows "is_dec_digit (of_nat (0x30 + d)) \<and> hex_value (of_nat (0x30 + d)) = d"
proof -
  have u: "unat (of_nat (0x30 + d) :: code_unit) = 0x30 + d"
    using assms unfolding unat_of_nat by simp
  then have "is_dec_digit (of_nat (0x30 + d))"
    using assms by (simp add: is_dec_digit_def word_le_nat_alt)
  with u show ?thesis
    by (simp add: hex_value_def is_dec_digit_def [symmetric])
qed

lemma dec_digit_not_whitespace: "is_dec_digit c \<Longrightarrow> \<not> is_js_whitespace c"
  by (auto simp: is_dec_digit_def is_js_whitespace_def word_le_nat_alt)

lemma dec_digit_radix:
  assumes "is_dec_digit c"
  shows "is_radix_digit 10 c"
proof -
  have "48 \<le> unat c \<and> unat c \<le> 57"
    using assms by (simp add: is_dec_digit_def word_le_nat_alt)
  then have "unat c - 48 < 10" by linarith
  with assms show ?thesis
    by (simp add: is_radix_digit_def hex_value_def is_dec_digit_def)
qed

lemma digits_value_snoc:
  "digits_value b (ds @ [d]) = digits_value b ds * b + hex_value d"
  by (simp add: digits_value_def)

lemma nat_to_jstr_digits:
  "nat_to_jstr n \<noteq> [] \<and> list_all is_dec_digit (nat_to_jstr n) \<and> digits_value 10 (nat_to_jstr n) = n"
proof (induction n rule: nat_to_jstr.induct)
  case (1 n)
  show ?case
  proof (cases "n < 10")
    case True
    then show ?thesis
      using dec_digit_unit [of n] by (simp add: nat_to_jstr.simps digits_value_def)
  next
    case False
    with "1.IH" have ih: "nat_to_jstr (n div 10) \<noteq> [] \<and> list_all is_dec_digit (nat_to_jstr (n div 10))
        \<and> digits_value 10 (nat_to_jstr (n div 10)) = n div 10"
      by simp
    have "n mod 10 < 10" by simp
    then have "is_dec_digit (of_nat (0x30 + n mod 10)) \<and> hex_value (of_nat (0x30 + n mod 10)) = n mod 10"
      by (rule dec_digit_unit)
    with ih False show ?thesis
      by (simp add: nat_to_jstr.simps [of n] digits_value_snoc)
  qed
qed

subsection \<open>Parsing an all-digit string\<close>

lemma all_digits_not_non_decimal:
  "list_all is_dec_digit s \<Longrightarrow> parse_non_decimal s = None"
  by (auto simp: parse_non_decimal_def is_dec_digit_def split: list.splits)

lemma all_digits_not_Infinity:
  "list_all is_dec_digit s \<Longrightarrow> s \<noteq> js ''Infinity''"
  by (auto simp: is_dec_digit_def)

lemma parse_unsigned_decimal_digits:
  assumes "s \<noteq> []" and "list_all is_dec_digit s"
  shows "parse_unsigned_decimal s = Some (Finite (of_nat (digits_value 10 s)))"
proof -
  have tw: "takeWhile is_dec_digit s = s" and dw: "dropWhile is_dec_digit s = []"
    using assms(2) by (simp_all add: list_all_iff)
  have "s \<noteq> js ''Infinity''"
    using assms(2) by (rule all_digits_not_Infinity)
  then show ?thesis
    unfolding parse_unsigned_decimal_def Let_def tw dw
    using assms(1) by (simp add: scale10_def)
qed

lemma js_trim_digits:
  assumes "s \<noteq> []" and "list_all is_dec_digit s"
  shows "js_trim s = s" and "js_trim (0x2D # s) = 0x2D # s"
proof -
  have "\<not> is_js_whitespace (hd s)" and "\<not> is_js_whitespace (last s)"
    using assms by (simp_all add: list_all_iff dec_digit_not_whitespace)
  moreover have "\<not> is_js_whitespace 0x2D"
    by (simp add: is_js_whitespace_def)
  ultimately show "js_trim s = s" and "js_trim (0x2D # s) = 0x2D # s"
    using assms(1) by (simp_all add: js_trim_id)
qed

lemma int_to_jstr_not_Nil: "int_to_jstr i \<noteq> []"
  using nat_to_jstr_digits [of "nat i"] by (simp add: int_to_jstr_def)

lemma js_Number_nat_to_jstr:
  "js_Number (nat_to_jstr n) = Finite (of_nat n)"
proof -
  obtain ne: "nat_to_jstr n \<noteq> []" and dg: "list_all is_dec_digit (nat_to_jstr n)"
    and v: "digits_value 10 (nat_to_jstr n) = n"
    using nat_to_jstr_digits [of n] by blast
  then obtain c r where cr: "nat_to_jstr n = c # r"
    by (cases "nat_to_jstr n") auto
  have c: "c \<noteq> 0x2B \<and> c \<noteq> 0x2D"
    using dg cr by (auto simp: is_dec_digit_def)
  show ?thesis
    using js_trim_digits(1) [OF ne dg] all_digits_not_non_decimal [OF dg]
      parse_unsigned_decimal_digits [OF ne dg] v c cr
    by (simp add: js_Number_def parse_numeric_literal_def)
qed

subsection \<open>Properties\<close>

lemma js_Number_int_to_jstr: "js_Number (int_to_jstr i) = Finite (of_int i)"
proof (cases "i < 0")
  case True
  let ?d = "nat_to_jstr (nat (- i))"
  obtain ne: "?d \<noteq> []" and dg: "list_all is_dec_digit ?d" and v: "digits_value 10 ?d = nat (- i)"
    using nat_to_jstr_digits [of "nat (- i)"] by blast
  have "js_trim (0x2D # ?d) = 0x2D # ?d"
    using ne dg by (rule js_trim_digits(2))
  moreover have "of_nat (nat (- i)) = (- of_int i :: rat)"
    using True by simp
  ultimately show ?thesis
    using parse_unsigned_decimal_digits [OF ne dg] v True
    by (simp add: js_Number_def int_to_jstr_def parse_numeric_literal_def)
next
  case False
  then show ?thesis
    using js_Number_nat_to_jstr [of "nat i"] by (simp add: int_to_jstr_def)
qed

text \<open>Evaluation of the parser on literals of each form of the grammar.\<close>

lemmas js_number_eval [js_simps] = js_Number_def parse_numeric_literal_def
  parse_non_decimal_def parse_unsigned_decimal_def parse_signed_integer_def digits_def
  digits_value_def hex_value_def is_radix_digit_def is_dec_digit_def scale10_def

lemma js_Number_examples:
  "js_Number (js '' 42 '') = Finite 42"
  "js_Number (js ''-7'') = Finite (-7)"
  "js_Number (js ''0x1F'') = Finite 31"
  "js_Number (js ''2.5e1'') = Finite 25"
  "js_Number (js ''.5'') = Finite (1/2)"
  "js_Number (js ''-Infinity'') = NegInf"
  "js_Number (js ''4a'') = NaN"
  "js_Number (js ''-0x1F'') = NaN"
  "js_Number (js ''1_000'') = NaN"
  "js_Number (js '' '') = Finite 0"
  by (simp_all add: js_simps Let_def)

end
