(* ===== verification/ProductView.thy ===== *)
theory ProductView
  imports ApiClient JsNumber
begin

text \<open>
  State and handlers of the \<open>Product\<close> component, \<open>src/src/component/Product.tsx\<close>
  lines 4 to 75. The eight \<open>useState\<close> slots form the record \<open>view\<close>. An async handler
  runs synchronously up to its first \<open>await\<close>, so each handler is modelled as the
  synchronous segment it runs: a function from the view to the new view and the list of
  continuations it leaves suspended on a request (\<open>pending\<close>); a second function
  (\<open>_resume\<close>) is the segment that runs when the awaited request settles. Calls that the
  source does not await (\<open>getProducts()\<close> inside \<open>handleURLSubmit\<close>, both calls in
  the effect) run their own synchronous segment in place and leave their continuation
  pending. A thrown \<open>Error\<close> or \<open>TypeError\<close> inside a \<open>try\<close> is the \<open>Inl\<close> of a sum
  carrying its message, as \<open>setError(error.message)\<close> reads it.
\<close>

record category =
  cat_id :: int
  name :: jstr

text \<open>
  A product as the backend's JSON gives it: \<open>category_id\<close> may be \<open>null\<close>,
  \<open>size\<close> may be \<open>null\<close>, and \<open>price\<close> is kept as the text React renders for it.
\<close>

record product =
  prod_id :: int
  title :: jstr
  description :: jstr
  price :: jstr
  category_id :: "int option"
  size :: "jstr option"

record view =
  url :: jstr
  products :: "product jsdata"
  categories :: "category jsdata"
  selectedCategory :: jstr
  isSubmittingURL :: bool
  error :: "jstr option"
  successMessage :: jstr
  showFullDescription :: bool

definition initial_view :: view where
  "initial_view =
     \<lparr>url = [], products = Arr [], categories = Arr [], selectedCategory = [],
      isSubmittingURL = False, error = None, successMessage = [], showFullDescription = False\<rparr>"

text \<open>A continuation suspended at an \<open>await\<close> on a request.\<close>

datatype pending = AwaitSubmit jstr | AwaitProducts jstr | AwaitCategories

fun pending_request :: "pending \<Rightarrow> request" where
  "pending_request (AwaitSubmit u) = submitProductURL_request u"
| "pending_request (AwaitProducts c) = fetchProducts_request"
| "pending_request AwaitCategories = fetchCategories_request"

definition url_required_msg :: jstr where
  "url_required_msg = js ''URL is required''"

definition success_msg :: jstr where
  "success_msg = js ''Product submitted successfully!''"

text \<open>The messages of the TypeError that \<open>fetchedProducts.filter(...)\<close> throws (V8).\<close>

definition filter_null_msg :: jstr where
  "filter_null_msg = js ''Cannot read properties of null (reading 'filter')''"

definition filter_not_function_msg :: jstr where
  "filter_not_function_msg = js ''fetchedProducts.filter is not a function''"

text \<open>\<open>product.category_id === Number(categoryId)\<close>: \<open>null\<close> equals no number.\<close>

definition category_matches :: "jstr \<Rightarrow> product \<Rightarrow> bool" where
  "category_matches categoryId p =
     (case category_id p of
        None \<Rightarrow> False
      | Some i \<Rightarrow> js_Number categoryId = Finite (of_int i))"

definition filter_products :: "jstr \<Rightarrow> product jsdata \<Rightarrow> jstr + product jsdata" where
  "filter_products categoryId fetched =
     (if truthy categoryId then
        (case fetched of
           Arr ps \<Rightarrow> Inr (Arr (filter (category_matches categoryId) ps))
         | JNull \<Rightarrow> Inl filter_null_msg
         | JOther \<Rightarrow> Inl filter_not_function_msg)
      else Inr fetched)"

definition getProducts :: "jstr \<Rightarrow> view \<Rightarrow> view \<times> pending list" where
  "getProducts categoryId v = (v, [AwaitProducts categoryId])"

definition getProducts_resume :: "jstr \<Rightarrow> product jsdata outcome \<Rightarrow> view \<Rightarrow> view" where
  "getProducts_resume categoryId r v =
     (case fetchProducts r of
        Inl msg \<Rightarrow> v\<lparr>error := Some msg\<rparr>
      | Inr fetched \<Rightarrow>
          (case filter_products categoryId fetched of
             Inl msg \<Rightarrow> v\<lparr>error := Some msg\<rparr>
           | Inr filtered \<Rightarrow> v\<lparr>products := filtered\<rparr>))"

definition getCategories :: "view \<Rightarrow> view \<times> pending list" where
  "getCategories v = (v, [AwaitCategories])"

definition getCategories_resume :: "category jsdata outcome \<Rightarrow> view \<Rightarrow> view" where
  "getCategories_resume r v =
     (case fetchCategories r of
        Inl msg \<Rightarrow> v\<lparr>error := Some msg\<rparr>
      | Inr fetched \<Rightarrow> v\<lparr>categories := fetched\<rparr>)"

definition handleURLSubmit :: "view \<Rightarrow> view \<times> pending list" where
  "handleURLSubmit v =
     (if \<not> truthy (url v) then (v\<lparr>error := Some url_required_msg\<rparr>, [])
      else (v\<lparr>isSubmittingURL := True, error := None\<rparr>, [AwaitSubmit (url v)]))"

text \<open>
  After \<open>await submitProductURL(url)\<close>: on success the message is set, the input
  cleared and \<open>getProducts()\<close> started without a category; \<open>finally\<close> clears the
  in-flight flag last on both paths. The response body is not used.
\<close>

definition handleURLSubmit_resume :: "'b outcome \<Rightarrow> view \<Rightarrow> view \<times> pending list" where
  "handleURLSubmit_resume r v =
     (case submitProductURL r of
        Inr _ \<Rightarrow>
          (let (v', ps) = getProducts [] (v\<lparr>successMessage := success_msg, url := []\<rparr>)
           in (v'\<lparr>isSubmittingURL := False\<rparr>, ps))
      | Inl msg \<Rightarrow> (v\<lparr>error := Some msg, isSubmittingURL := False\<rparr>, []))"

definition handleCategoryChange :: "jstr \<Rightarrow> view \<Rightarrow> view \<times> pending list" where
  "handleCategoryChange value v = getProducts value (v\<lparr>selectedCategory := value\<rparr>)"

text \<open>The mount effect: \<open>getCategories(); getProducts();\<close>, neither awaited.\<close>

definition mount_effect :: "view \<Rightarrow> view \<times> pending list" where
  "mount_effect v =
     (let (v1, ps1) = getCategories v;
          (v2, ps2) = getProducts [] v1
      in (v2, ps1 @ ps2))"

definition toggleDescription :: "view \<Rightarrow> view" where
  "toggleDescription v = v\<lparr>showFullDescription := \<not> showFullDescription v\<rparr>"

text \<open>The input's \<open>onChange={(e) => setUrl(e.target.value)}\<close>.\<close>

definition setUrl :: "jstr \<Rightarrow> view \<Rightarrow> view" where
  "setUrl s v = v\<lparr>url := s\<rparr>"

lemmas handler_defs =
  getProducts_def getCategories_def handleURLSubmit_def handleURLSubmit_resume_def
  handleCategoryChange_def mount_effect_def toggleDescription_def setUrl_def
  getProducts_resume_def getCategories_resume_def

subsection \<open>Evaluation of the handlers, branch by branch\<close>

lemmas state_setters [view_simps] = setUrl_def toggleDescription_def

lemma filter_products_Nil [simp]: "filter_products [] d = Inr d"
  by (simp add: filter_products_def)

lemma category_matches_int_to_jstr [simp]:
  "category_matches (int_to_jstr x) p \<longleftrightarrow> category_id p = Some x"
  by (auto simp: category_matches_def js_Number_int_to_jstr split: option.splits)

lemma filter_products_int_to_jstr [simp]:
  "filter_products (int_to_jstr x) (Arr ps) = Inr (Arr (filter (\<lambda>p. category_id p = Some x) ps))"
proof -
  have "category_matches (int_to_jstr x) = (\<lambda>p. category_id p = Some x)"
    by (rule ext) simp
  then show ?thesis
    by (simp add: filter_products_def int_to_jstr_not_Nil)
qed

lemma mount_effect_eq [simp]: "mount_effect v = (v, [AwaitCategories, AwaitProducts []])"
  by (simp add: mount_effect_def getCategories_def getProducts_def)

lemma handleCategoryChange_eq [simp]:
  "handleCategoryChange s v = (v\<lparr>selectedCategory := s\<rparr>, [AwaitProducts s])"
  by (simp add: handleCategoryChange_def getProducts_def)

lemma handleURLSubmit_nonempty [simp]:
  "url v \<noteq> [] \<Longrightarrow>
     handleURLSubmit v = (v\<lparr>isSubmittingURL := True, error := None\<rparr>, [AwaitSubmit (url v)])"
  by (simp add: handleURLSubmit_def)

lemma getProducts_resume_fail [view_simps]:
  "axios_settle r = None \<Longrightarrow> getProducts_resume c r v = v\<lparr>error := Some fetch_products_failed_msg\<rparr>"
  by (simp add: getProducts_resume_def fetchProducts_def catch_as_def)

lemma getProducts_resume_ok [view_simps]:
  "axios_settle r = Some d \<Longrightarrow> getProducts_resume c r v =
     (case filter_products c d of Inl m \<Rightarrow> v\<lparr>error := Some m\<rparr> | Inr f \<Rightarrow> v\<lparr>products := f\<rparr>)"
  by (simp add: getProducts_resume_def fetchProducts_def catch_as_def)

lemma getCategories_resume_fail [view_simps]:
  "axios_settle r = None \<Longrightarrow> getCategories_resume r v = v\<lparr>error := Some fetch_category_failed_msg\<rparr>"
  by (simp add: getCategories_resume_def fetchCategories_def catch_as_def)

lemma getCategories_resume_ok [view_simps]:
  "axios_settle r = Some d \<Longrightarrow> getCategories_resume r v = v\<lparr>categories := d\<rparr>"
  by (simp add: getCategories_resume_def fetchCategories_def catch_as_def)

lemma handleURLSubmit_resume_ok [view_simps]:
  "axios_settle r = Some d \<Longrightarrow> handleURLSubmit_resume r v =
     (v\<lparr>successMessage := success_msg, url := [], isSubmittingURL := False\<rparr>, [AwaitProducts []])"
  by (simp add: handleURLSubmit_resume_def submitProductURL_def catch_as_def getProducts_def)

lemma handleURLSubmit_resume_fail [view_simps]:
  "axios_settle r = None \<Longrightarrow> handleURLSubmit_resume r v =
     (v\<lparr>error := Some submit_failed_msg, isSubmittingURL := False\<rparr>, [])"
  by (simp add: handleURLSubmit_resume_def submitProductURL_def catch_as_def)

subsection \<open>Properties of the handlers\<close>

text \<open>
  C3: submitting with an empty URL makes no network call: \<open>handleURLSubmit\<close> leaves
  no request pending, sets the error to "URL is required", and changes no other slot.
\<close>

theorem handleURLSubmit_empty_url:
  assumes "url v = []"
  shows "snd (handleURLSubmit v) = [] \<and> error (fst (handleURLSubmit v)) = Some url_required_msg
       \<and> (fst (handleURLSubmit v))\<lparr>error := error v\<rparr> = v"
  using assms by (simp add: handleURLSubmit_def)

theorem handleURLSubmit_empty_url_witness:
  "url initial_view = [] \<and> snd (handleURLSubmit initial_view) = []
   \<and> error (fst (handleURLSubmit initial_view)) = Some url_required_msg
   \<and> (fst (handleURLSubmit initial_view))\<lparr>error := error initial_view\<rparr> = initial_view"
  using handleURLSubmit_empty_url [of initial_view] by (simp add: initial_view_def)

text \<open>
  C4: filtering by a selected category. When the products request started for the option
  value of category \<open>x\<close> succeeds with an array, the view holds exactly the products whose
  \<open>category_id\<close> is \<open>x\<close>, in the order the backend returned them, and nothing else of
  the view changes.
\<close>

theorem getProducts_resume_filters:
  assumes "200 \<le> s" and "s < 300"
  shows "getProducts_resume (int_to_jstr x) (Reply s (Arr ps)) v
         = v\<lparr>products := Arr (filter (\<lambda>p. category_id p = Some x) ps)\<rparr>"
  using assms by (simp add: getProducts_resume_ok)

definition sample_product :: "int \<Rightarrow> int \<Rightarrow> product" where
  "sample_product i c = \<lparr>prod_id = i, title = js ''t'', description = js ''d'', price = js ''1'',
     category_id = Some c, size = None\<rparr>"

theorem getProducts_resume_filters_witness:
  "(200::nat) \<le> 200 \<and> (200::nat) < 300
   \<and> getProducts_resume (int_to_jstr 7) (Reply 200 (Arr [sample_product 1 7, sample_product 2 8, sample_product 3 7])) initial_view
     = initial_view\<lparr>products := Arr [sample_product 1 7, sample_product 3 7]\<rparr>"
  using getProducts_resume_filters [of 200 7 "[sample_product 1 7, sample_product 2 8, sample_product 3 7]" initial_view]
  by (simp add: sample_product_def)

end
