(* ===== verification/Render.thy ===== *)
theory Render
  imports ProductView
begin

text \<open>
  What the component renders, \<open>src/src/component/Product.tsx\<close> lines 70 to 166, as a
  function from the view state to the visible page: the error and success lines, the URL
  form, the category select with its options, and the grid, which is either one card per
  product or the placeholder text. The JSX is evaluated in source order, so
  \<open>categories.map\<close> throws before the grid is built when \<open>categories\<close> is not an
  array; React then unmounts the tree, and \<open>render\<close> returns the TypeError's message as
  \<open>Inl\<close>. Products are guarded by \<open>Array.isArray\<close> and never throw. The description
  expansion flag is a single slot of the view read by every card.
\<close>

definition truncateDescription :: "jstr \<Rightarrow> nat \<Rightarrow> jstr" where
  "truncateDescription desc limit =
     (if length desc > limit then take limit desc @ js ''...'' else desc)"

definition description_limit :: nat where
  "description_limit = 200"

record card =
  key :: int
  heading :: jstr
  body :: jstr
  toggle :: "jstr option"
  badge :: jstr
  sizes :: "jstr list option"

datatype grid = Cards "card list" | Placeholder jstr

record page_dom =
  error_line :: "jstr option"
  success_line :: "jstr option"
  input_value :: jstr
  submit_label :: jstr
  submit_disabled :: bool
  select_value :: jstr
  options :: "(jstr \<times> jstr) list"
  grid :: grid

definition read_more_label :: jstr where
  "read_more_label = js ''Read more''"

definition show_less_label :: jstr where
  "show_less_label = js ''Show less''"

definition placeholder_text :: jstr where
  "placeholder_text = js ''No products available''"

text \<open>\<open>product.size && product.size.trim() && ... product.size.split(",").map(s => s.trim())\<close>.\<close>

definition render_sizes :: "jstr option \<Rightarrow> jstr list option" where
  "render_sizes sz =
     (case sz of
        None \<Rightarrow> None
      | Some s \<Rightarrow>
          (if truthy s \<and> truthy (js_trim s) then Some (map js_trim (js_split 0x2C s)) else None))"

definition render_card :: "bool \<Rightarrow> product \<Rightarrow> card" where
  "render_card showFull p =
     \<lparr>key = prod_id p,
      heading = title p,
      body = (if showFull then description p else truncateDescription (description p) description_limit),
      toggle = (if length (description p) > 200
                then Some (if showFull then show_less_label else read_more_label) else None),
      badge = js ''Price: Rs'' @ price p,
      sizes = render_sizes (size p)\<rparr>"

definition render_grid :: "bool \<Rightarrow> product jsdata \<Rightarrow> grid" where
  "render_grid showFull ps =
     (case ps of
        Arr xs \<Rightarrow> (if length xs > 0 then Cards (map (render_card showFull) xs) else Placeholder placeholder_text)
      | _ \<Rightarrow> Placeholder placeholder_text)"

definition all_categories_option :: "jstr \<times> jstr" where
  "all_categories_option = ([], js ''All Categories'')"

definition render_options :: "category jsdata \<Rightarrow> jstr + (jstr \<times> jstr) list" where
  "render_options cs =
     (case cs of
        Arr xs \<Rightarrow> Inr (all_categories_option # map (\<lambda>c. (int_to_jstr (cat_id c), name c)) xs)
      | JNull \<Rightarrow> Inl (js ''Cannot read properties of null (reading 'map')'')
      | JOther \<Rightarrow> Inl (js ''categories.map is not a function''))"

definition render :: "view \<Rightarrow> jstr + page_dom" where
  "render v =
     (case render_options (categories v) of
        Inl msg \<Rightarrow> Inl msg
      | Inr opts \<Rightarrow> Inr
          \<lparr>error_line = (case error v of Some e \<Rightarrow> (if truthy e then Some e else None) | None \<Rightarrow> None),
           success_line = (if truthy (successMessage v) then Some (successMessage v) else None),
           input_value = url v,
           submit_label = (if isSubmittingURL v then js ''Submitting...'' else js ''Submit''),
           submit_disabled = isSubmittingURL v,
           select_value = selectedCategory v,
           options = opts,
           grid = render_grid (showFullDescription v) (products v)\<rparr>)"

text \<open>Cards that show the Read more / Show less button.\<close>

definition toggle_available :: "page_dom \<Rightarrow> bool" where
  "toggle_available d =
     (case grid d of Cards cs \<Rightarrow> (\<exists>c \<in> set cs. toggle c \<noteq> None) | Placeholder _ \<Rightarrow> False)"

subsection \<open>Evaluation rules\<close>

lemma render_Arr:
  "categories v = Arr cs \<Longrightarrow> render v = Inr
     \<lparr>error_line = (case error v of Some e \<Rightarrow> (if truthy e then Some e else None) | None \<Rightarrow> None),
      success_line = (if truthy (successMessage v) then Some (successMessage v) else None),
      input_value = url v,
      submit_label = (if isSubmittingURL v then js ''Submitting...'' else js ''Submit''),
      submit_disabled = isSubmittingURL v,
      select_value = selectedCategory v,
      options = all_categories_option # map (\<lambda>c. (int_to_jstr (cat_id c), name c)) cs,
      grid = render_grid (showFullDescription v) (products v)\<rparr>"
  by (simp add: render_def render_options_def)

lemma render_Inr_iff: "(\<exists>d. render v = Inr d) \<longleftrightarrow> (\<exists>cs. categories v = Arr cs)"
  by (auto simp: render_def render_options_def split: jsdata.splits)

lemma grid_render:
  "render v = Inr d \<Longrightarrow> grid d = render_grid (showFullDescription v) (products v)"
  by (auto simp: render_def split: sum.splits)

lemma render_Inr_fields:
  assumes "render v = Inr d"
  shows "submit_disabled d = isSubmittingURL v \<and> input_value d = url v
       \<and> (\<exists>cs. categories v = Arr cs
             \<and> map fst (options d) = [] # map (\<lambda>c. int_to_jstr (cat_id c)) cs)"
  using assms
  by (auto simp: render_def render_options_def all_categories_option_def split: jsdata.splits)

lemma length_truncateDescription:
  "length (truncateDescription s n) = (if length s > n then n + 3 else length s)"
  by (simp add: truncateDescription_def)

lemma render_sizes_Some:
  "render_sizes (Some s) =
     (if \<forall>c \<in> set s. is_js_whitespace c then None else Some (map js_trim (js_split 0x2C s)))"
proof -
  have "(truthy s \<and> truthy (js_trim s)) \<longleftrightarrow> \<not> (\<forall>c \<in> set s. is_js_whitespace c)"
    using js_trim_Nil_iff [of s] by auto
  then show ?thesis
    by (simp only: render_sizes_def option.case if_bool_eq_conj) auto
qed

subsection \<open>Properties of the rendering\<close>

text \<open>
  C5: the Read more control. A card shows a toggle button exactly when its description is
  longer than 200 code units. While the shared flag is off, the card shows the description
  itself when it is short, and otherwise its first 200 units followed by an ellipsis with
  the label "Read more"; once toggled, the full description with the label "Show less".
\<close>

theorem card_read_more:
  "(toggle (render_card sf p) = None \<longleftrightarrow> length (description p) \<le> 200)
   \<and> body (render_card False p) =
       (if length (description p) \<le> 200 then description p else take 200 (description p) @ js ''...'')
   \<and> body (render_card True p) = description p
   \<and> (200 < length (description p) \<longrightarrow>
        toggle (render_card False p) = Some (js ''Read more'')
      \<and> toggle (render_card True p) = Some (js ''Show less''))"
  by (simp add: render_card_def truncateDescription_def description_limit_def
      read_more_label_def show_less_label_def)

definition long_product :: product where
  "long_product = \<lparr>prod_id = 1, title = js ''t'', description = replicate 250 (0x61), price = js ''9'',
     category_id = Some 1, size = None\<rparr>"

theorem card_read_more_witness:
  "200 < length (description long_product)
   \<and> toggle (render_card False long_product) \<noteq> None
   \<and> body (render_card False long_product) = replicate 200 0x61 @ js ''...''
   \<and> body (render_card True long_product) = description long_product
   \<and> toggle (render_card False long_product) = Some (js ''Read more'')
   \<and> toggle (render_card True long_product) = Some (js ''Show less'')"
proof -
  have long: "200 < length (description long_product)"
    by (simp add: long_product_def)
  then show ?thesis
    using card_read_more [of False long_product] card_read_more [of True long_product]
    by (simp add: long_product_def)
qed

text \<open>
  C6: the empty state. On a page that renders, the grid is the placeholder "No products
  available" exactly when \<open>products\<close> is not a non-empty array (an empty array,
  \<open>null\<close>, or any other JSON value); otherwise it has one card per product, in order.
\<close>

theorem placeholder_shown:
  assumes "categories v = Arr cs"
  shows "(\<exists>d. render v = Inr d \<and> grid d = Placeholder (js ''No products available''))
           \<longleftrightarrow> (\<forall>xs. products v = Arr xs \<longrightarrow> xs = [])"
proof -
  have "grid (projr (render v)) = render_grid (showFullDescription v) (products v)"
    using assms by (simp add: render_Arr)
  then show ?thesis
    using assms
    by (auto simp: render_Arr render_grid_def placeholder_text_def split: jsdata.splits)
qed

theorem placeholder_shown_witness:
  "categories initial_view = Arr []
   \<and> (\<exists>d. render initial_view = Inr d \<and> grid d = Placeholder (js ''No products available''))"
proof -
  have "categories initial_view = Arr []" and "products initial_view = Arr []"
    by (simp_all add: initial_view_def)
  then show ?thesis
    using placeholder_shown [of initial_view "[]"] by simp
qed

text \<open>
  C24: size buttons. A size that is absent, empty or only whitespace shows no buttons;
  otherwise there is one button per comma-separated piece, trimmed, so one more button than
  the size has commas (an empty piece, as in \<open>"S,,M"\<close>, gives an empty button).
\<close>

theorem size_buttons:
  "render_sizes None = None
   \<and> render_sizes (Some s) =
       (if \<forall>c \<in> set s. is_js_whitespace c then None else Some (map js_trim (js_split 0x2C s)))
   \<and> (\<forall>bs. render_sizes (Some s) = Some bs \<longrightarrow> length bs = Suc (count_list s 0x2C))"
  by (simp add: render_sizes_Some length_js_split) (simp add: render_sizes_def)

theorem size_buttons_witness:
  "render_sizes None = None
   \<and> render_sizes (Some (js ''S,,M'')) = Some [js ''S'', [], js ''M'']
   \<and> length [js ''S'', [], js ''M''] = Suc (count_list (js ''S,,M'') 0x2C)"
proof -
  have "render_sizes (Some (js ''S,,M'')) = Some [js ''S'', [], js ''M'']"
    by (simp add: render_sizes_def js_simps)
  then show ?thesis
    using size_buttons [of "js ''S,,M''"] by simp
qed

text \<open>
  C23: one flag for all cards. \<open>toggleDescription\<close> flips the single
  \<open>showFullDescription\<close> slot, so a click on any card's button re-renders every card
  with the other mode, and every card with a long description changes its button label.
\<close>

theorem toggle_flips_every_card:
  assumes "products v = Arr xs" and "xs \<noteq> []"
  shows "render_grid (showFullDescription (toggleDescription v)) (products v)
           = Cards (map (render_card (\<not> showFullDescription v)) xs)
       \<and> (\<forall>p \<in> set xs. 200 < length (description p) \<longrightarrow>
            toggle (render_card (showFullDescription (toggleDescription v)) p)
              \<noteq> toggle (render_card (showFullDescription v) p))"
  using assms
  by (simp add: toggleDescription_def render_grid_def render_card_def read_more_label_def
      show_less_label_def)

definition two_long_products :: view where
  "two_long_products = initial_view\<lparr>products := Arr [long_product, long_product\<lparr>prod_id := 2\<rparr>]\<rparr>"

theorem toggle_flips_every_card_witness:
  "products two_long_products = Arr [long_product, long_product\<lparr>prod_id := 2\<rparr>]
   \<and> render_grid (showFullDescription (toggleDescription two_long_products)) (products two_long_products)
       = Cards [render_card True long_product, render_card True (long_product\<lparr>prod_id := 2\<rparr>)]
   \<and> toggle (render_card True long_product) \<noteq> toggle (render_card False long_product)"
proof -
  have ps: "products two_long_products = Arr [long_product, long_product\<lparr>prod_id := 2\<rparr>]"
    and sf: "showFullDescription two_long_products = False"
    and long: "200 < length (description long_product)"
    by (simp_all add: two_long_products_def initial_view_def long_product_def)
  then show ?thesis
    using toggle_flips_every_card [OF ps] by (simp add: toggleDescription_def)
qed

text \<open>
  C16: the page crashes on a non-array category list. \<open>categories.map\<close> is not guarded
  the way \<open>products\<close> is, so rendering throws a TypeError, and the whole page is lost,
  exactly when \<open>categories\<close> holds \<open>null\<close> or another non-array value.
\<close>

theorem render_fails_iff:
  "(\<exists>msg. render v = Inl msg) \<longleftrightarrow> (\<forall>cs. categories v \<noteq> Arr cs)"
  by (auto simp: render_def render_options_def split: jsdata.splits)

text \<open>
  C22: an option of the category select selects its own category. Every option the select
  renders for a loaded list of categories is either the empty \<open>All Categories\<close> option,
  whose value turns the filter off, or the option of a loaded category \<open>c\<close>, labelled with
  \<open>c\<close>'s name, whose value (\<open>value={category.id}\<close>, line 114) makes the filter of
  \<open>getProducts\<close> (\<open>product.category_id === Number(categoryId)\<close>, line 18) keep
  exactly the products of category \<open>c\<close>, in order.
\<close>

theorem option_value_filters_its_category:
  assumes "render_options (Arr cs) = Inr opts" and "(val, lbl) \<in> set opts"
  shows "(val = [] \<and> lbl = js ''All Categories'' \<and> filter_products val (Arr ps) = Inr (Arr ps))
       \<or> (\<exists>c \<in> set cs. val = int_to_jstr (cat_id c) \<and> lbl = name c
            \<and> filter_products val (Arr ps) = Inr (Arr (filter (\<lambda>p. category_id p = Some (cat_id c)) ps)))"
proof -
  have "opts = all_categories_option # map (\<lambda>c. (int_to_jstr (cat_id c), name c)) cs"
    using assms(1) by (simp add: render_options_def)
  then have "(val, lbl) = all_categories_option \<or> (\<exists>c \<in> set cs. (val, lbl) = (int_to_jstr (cat_id c), name c))"
    using assms(2) by auto
  then show ?thesis
    by (auto simp: all_categories_option_def)
qed

theorem option_value_filters_its_category_witness:
  "render_options (Arr [\<lparr>cat_id = 7, name = js ''Tools''\<rparr>])
     = Inr [all_categories_option, (int_to_jstr 7, js ''Tools'')]
   \<and> filter_products (int_to_jstr 7) (Arr [sample_product 1 7, sample_product 2 8])
     = Inr (Arr [sample_product 1 7])"
proof -
  have o: "render_options (Arr [\<lparr>cat_id = 7, name = js ''Tools''\<rparr>])
     = Inr [all_categories_option, (int_to_jstr 7, js ''Tools'')]"
    by (simp add: render_options_def)
  have "(int_to_jstr 7, js ''Tools'') \<in> set [all_categories_option, (int_to_jstr 7, js ''Tools'')]"
    by simp
  with option_value_filters_its_category [OF o, of _ _ "[sample_product 1 7, sample_product 2 8]"]
  have "filter_products (int_to_jstr 7) (Arr [sample_product 1 7, sample_product 2 8])
     = Inr (Arr [sample_product 1 7])"
    by (auto simp: sample_product_def int_to_jstr_not_Nil)
  with o show ?thesis ..
qed

end
