(* ===== verification/PageRuntime.thy ===== *)
theory PageRuntime
  imports Render
begin

text \<open>
  The page at run time: the view state together with the continuations suspended on
  network requests, the log of requests sent, and whether the mount effect has run. One
  event is one atomic segment of the single UI thread: a user action on the rendered page,
  or the settling of one pending request, which the network may deliver in any order and
  with any outcome. The DOM decides which user actions exist: the submit button is
  \<open>disabled={isSubmittingURL}\<close> and the input is \<open>required\<close> (the browser does not fire
  \<open>submit\<close> while its value is empty; the \<open>type="url"\<close> syntax check is not modelled,
  so the model admits more submissions than the browser, never fewer); the select offers
  only its rendered option values; the toggle exists only on a card that shows it. After a
  render crash the tree is gone and no user action is possible. \<open>step\<close> is the
  deterministic transition for a given event (None when the event is not possible),
  \<open>reachable\<close> the states of all interleavings, \<open>run\<close> the execution of an event list.
\<close>

record page =
  view :: view
  pending :: "pending list"
  sent :: "request list"
  mounted :: bool

definition initial_page :: page where
  "initial_page = \<lparr>view = initial_view, pending = [], sent = [], mounted = False\<rparr>"

text \<open>A settled request: the response body of the submission is not used, so it is \<open>unit\<close>.\<close>

datatype reply =
    SubmitReply "unit outcome"
  | ProductsReply "product jsdata outcome"
  | CategoriesReply "category jsdata outcome"

datatype event =
    Mount
  | InputChange jstr
  | FormSubmit
  | SelectChange jstr
  | ToggleClick
  | Deliver nat reply

fun resume :: "pending \<Rightarrow> reply \<Rightarrow> view \<Rightarrow> (view \<times> pending list) option" where
  "resume (AwaitSubmit u) (SubmitReply r) v = Some (handleURLSubmit_resume r v)"
| "resume (AwaitProducts c) (ProductsReply r) v = Some (getProducts_resume c r v, [])"
| "resume AwaitCategories (CategoriesReply r) v = Some (getCategories_resume r v, [])"
| "resume _ _ _ = None"

text \<open>Commit a segment: its view, and the requests of the continuations it suspended.\<close>

definition issue :: "view \<times> pending list \<Rightarrow> page \<Rightarrow> page" where
  "issue vp p =
     p\<lparr>view := fst vp, pending := pending p @ snd vp,
       sent := sent p @ map pending_request (snd vp)\<rparr>"

definition option_values :: "page_dom \<Rightarrow> jstr list" where
  "option_values d = map fst (options d)"

fun step :: "page \<Rightarrow> event \<Rightarrow> page option" where
  "step p Mount =
     (if mounted p then None else Some (issue (mount_effect (view p)) (p\<lparr>mounted := True\<rparr>)))"
| "step p (InputChange s) =
     (case render (view p) of
        Inl _ \<Rightarrow> None
      | Inr d \<Rightarrow> Some (p\<lparr>view := setUrl s (view p)\<rparr>))"
| "step p FormSubmit =
     (case render (view p) of
        Inl _ \<Rightarrow> None
      | Inr d \<Rightarrow>
          (if submit_disabled d \<or> \<not> truthy (input_value d) then None
           else Some (issue (handleURLSubmit (view p)) p)))"
| "step p (SelectChange s) =
     (case render (view p) of
        Inl _ \<Rightarrow> None
      | Inr d \<Rightarrow>
          (if s \<in> set (option_values d) then Some (issue (handleCategoryChange s (view p)) p)
           else None))"
| "step p ToggleClick =
     (case render (view p) of
        Inl _ \<Rightarrow> None
      | Inr d \<Rightarrow> (if toggle_available d then Some (p\<lparr>view := toggleDescription (view p)\<rparr>) else None))"
| "step p (Deliver i r) =
     (if i < length (pending p) then
        (case resume (pending p ! i) r (view p) of
           None \<Rightarrow> None
         | Some vp \<Rightarrow> Some (issue vp (p\<lparr>pending := del_at i (pending p)\<rparr>)))
      else None)"

fun run :: "page \<Rightarrow> event list \<Rightarrow> page option" where
  "run p [] = Some p"
| "run p (e # es) = (case step p e of None \<Rightarrow> None | Some p' \<Rightarrow> run p' es)"

inductive reachable :: "page \<Rightarrow> bool" where
  init: "reachable initial_page"
| step: "reachable p \<Longrightarrow> step p e = Some p' \<Longrightarrow> reachable p'"

subsection \<open>Shape of a step\<close>

lemma issue_fields [simp]:
  "view (issue (v, ps) p) = v"
  "pending (issue (v, ps) p) = pending p @ ps"
  "sent (issue (v, ps) p) = sent p @ map pending_request ps"
  "mounted (issue (v, ps) p) = mounted p"
  by (simp_all add: issue_def)

lemma step_Mount_Some:
  "step p Mount = Some p' \<Longrightarrow> \<not> mounted p \<and> p' = issue (view p, [AwaitCategories, AwaitProducts []]) (p\<lparr>mounted := True\<rparr>)"
  by (simp split: if_splits)
lemma step_InputChange_Some:
  "step p (InputChange s) = Some p' \<Longrightarrow> p' = p\<lparr>view := (view p)\<lparr>url := s\<rparr>\<rparr>"
  by (simp add: setUrl_def split: sum.splits)
lemma step_FormSubmit_Some:
  assumes "step p FormSubmit = Some p'"
  shows "\<not> isSubmittingURL (view p) \<and> url (view p) \<noteq> []
       \<and> p' = issue ((view p)\<lparr>isSubmittingURL := True, error := None\<rparr>, [AwaitSubmit (url (view p))]) p"
proof -
  obtain d where d: "render (view p) = Inr d"
    and ok: "\<not> (submit_disabled d \<or> \<not> truthy (input_value d))"
    and p': "p' = issue (handleURLSubmit (view p)) p"
    using assms by (simp split: sum.splits if_splits)
  with render_Inr_fields [OF d] show ?thesis
    by simp
qed
lemma step_SelectChange_Some:
  assumes "step p (SelectChange s) = Some p'"
  shows "\<exists>cs. categories (view p) = Arr cs \<and> s \<in> set ([] # map (\<lambda>c. int_to_jstr (cat_id c)) cs)
           \<and> p' = issue ((view p)\<lparr>selectedCategory := s\<rparr>, [AwaitProducts s]) p"
proof -
  obtain d where d: "render (view p) = Inr d" and s: "s \<in> set (option_values d)"
    and p': "p' = issue (handleCategoryChange s (view p)) p"
    using assms by (simp split: sum.splits if_splits)
  obtain cs where cs: "categories (view p) = Arr cs"
    and opts: "map fst (options d) = [] # map (\<lambda>c. int_to_jstr (cat_id c)) cs"
    using render_Inr_fields [OF d] by auto
  from s have "s \<in> set ([] # map (\<lambda>c. int_to_jstr (cat_id c)) cs)"
    unfolding option_values_def opts .
  with cs p' show ?thesis
    by auto
qed
lemma step_ToggleClick_Some:
  "step p ToggleClick = Some p' \<Longrightarrow> p' = p\<lparr>view := toggleDescription (view p)\<rparr>"
  by (simp split: sum.splits if_splits)
lemma step_Deliver_Some:
  "step p (Deliver i r) = Some p' \<Longrightarrow>
     i < length (pending p) \<and> (\<exists>vp. resume (pending p ! i) r (view p) = Some vp
        \<and> p' = issue vp (p\<lparr>pending := del_at i (pending p)\<rparr>))"
  by (cases "resume (pending p ! i) r (view p)") (auto split: if_splits)
lemma step_SomeE:
  assumes "step p e = Some p'"
  obtains (mount) "\<not> mounted p" "p' = issue (view p, [AwaitCategories, AwaitProducts []]) (p\<lparr>mounted := True\<rparr>)"
      "e = Mount"
  | (input) s where "p' = p\<lparr>view := (view p)\<lparr>url := s\<rparr>\<rparr>" "e = InputChange s"
  | (submit) "\<not> isSubmittingURL (view p)" "url (view p) \<noteq> []"
      "p' = issue ((view p)\<lparr>isSubmittingURL := True, error := None\<rparr>, [AwaitSubmit (url (view p))]) p"
      "e = FormSubmit"
  | (select) s cs where "categories (view p) = Arr cs" "s \<in> set ([] # map (\<lambda>c. int_to_jstr (cat_id c)) cs)"
      "p' = issue ((view p)\<lparr>selectedCategory := s\<rparr>, [AwaitProducts s]) p" "e = SelectChange s"
  | (toggle) "p' = p\<lparr>view := toggleDescription (view p)\<rparr>" "e = ToggleClick"
  | (deliver) i r vp where "i < length (pending p)" "resume (pending p ! i) r (view p) = Some vp"
      "p' = issue vp (p\<lparr>pending := del_at i (pending p)\<rparr>)" "e = Deliver i r"
proof (cases e)
  case Mount
  with assms step_Mount_Some show ?thesis by (metis that(1))
next
  case (InputChange s)
  with assms step_InputChange_Some show ?thesis by (metis that(2))
next
  case FormSubmit
  with assms step_FormSubmit_Some show ?thesis by (metis that(3))
next
  case (SelectChange s)
  with assms step_SelectChange_Some show ?thesis by (metis that(4))
next
  case ToggleClick
  with assms step_ToggleClick_Some show ?thesis by (metis that(5))
next
  case (Deliver i r)
  with assms step_Deliver_Some show ?thesis by (metis that(6))
qed

lemma resume_SomeE:
  assumes "resume q r v = Some vp"
  obtains (submit) u and oc :: "unit outcome" where "q = AwaitSubmit u" "vp = handleURLSubmit_resume oc v"
      "r = SubmitReply oc"
  | (products) c oc where "q = AwaitProducts c" "vp = (getProducts_resume c oc v, [])" "r = ProductsReply oc"
  | (categories) oc where "q = AwaitCategories" "vp = (getCategories_resume oc v, [])" "r = CategoriesReply oc"
proof (cases q)
  case (AwaitSubmit u)
  obtain oc where r: "r = SubmitReply oc"
    using assms AwaitSubmit by (cases r) auto
  with assms AwaitSubmit have "vp = handleURLSubmit_resume oc v" by simp
  with AwaitSubmit r show ?thesis by (intro that(1))
next
  case (AwaitProducts c)
  obtain oc where r: "r = ProductsReply oc"
    using assms AwaitProducts by (cases r) auto
  with assms AwaitProducts have "vp = (getProducts_resume c oc v, [])" by simp
  with AwaitProducts r show ?thesis by (intro that(2))
next
  case AwaitCategories
  obtain oc where r: "r = CategoriesReply oc"
    using assms AwaitCategories by (cases r) auto
  with assms AwaitCategories have "vp = (getCategories_resume oc v, [])" by simp
  with AwaitCategories r show ?thesis by (intro that(3))
qed

text \<open>What each resumed segment may change.\<close>

lemma handleURLSubmit_resume_shape:
  assumes "handleURLSubmit_resume r v = (v', ps)"
  shows "\<not> isSubmittingURL v' \<and> (ps = [] \<or> ps = [AwaitProducts []])
       \<and> categories v' = categories v \<and> selectedCategory v' = selectedCategory v
       \<and> (error v' = error v \<or> error v' = Some submit_failed_msg)"
  using assms
  by (cases "axios_settle r") (auto simp: view_simps)

lemma getProducts_resume_frame:
  "isSubmittingURL (getProducts_resume c r v) = isSubmittingURL v
   \<and> categories (getProducts_resume c r v) = categories v
   \<and> selectedCategory (getProducts_resume c r v) = selectedCategory v
   \<and> (error (getProducts_resume c r v) = error v
      \<or> error (getProducts_resume c r v) \<in> {Some fetch_products_failed_msg, Some filter_null_msg,
                                           Some filter_not_function_msg})"
  by (cases "axios_settle r")
     (auto simp: getProducts_resume_fail getProducts_resume_ok filter_products_def
           split: sum.splits jsdata.splits if_splits)

lemma getCategories_resume_frame:
  "isSubmittingURL (getCategories_resume r v) = isSubmittingURL v
   \<and> selectedCategory (getCategories_resume r v) = selectedCategory v
   \<and> products (getCategories_resume r v) = products v
   \<and> (error (getCategories_resume r v) = error v
      \<or> error (getCategories_resume r v) = Some fetch_category_failed_msg)"
  by (cases "axios_settle r") (auto simp: getCategories_resume_fail getCategories_resume_ok)

subsection \<open>Invariants of the reachable states\<close>

definition is_submit :: "pending \<Rightarrow> bool" where
  "is_submit q \<longleftrightarrow> (case q of AwaitSubmit _ \<Rightarrow> True | _ \<Rightarrow> False)"

text \<open>At most one submission in flight, and the flag says whether there is one.\<close>

definition submit_inv :: "page \<Rightarrow> bool" where
  "submit_inv p \<longleftrightarrow>
     length (filter is_submit (pending p)) \<le> 1
   \<and> (isSubmittingURL (view p) \<longleftrightarrow> length (filter is_submit (pending p)) = 1)"

definition known_errors :: "jstr option list" where
  "known_errors = [None, Some submit_failed_msg, Some fetch_products_failed_msg,
     Some fetch_category_failed_msg, Some filter_null_msg, Some filter_not_function_msg]"

definition error_inv :: "page \<Rightarrow> bool" where
  "error_inv p \<longleftrightarrow> error (view p) \<in> set known_errors"

text \<open>
  The categories request is sent once, by the mount effect, and until it settles the
  category list is still the initial empty array.
\<close>

definition categories_inv :: "page \<Rightarrow> bool" where
  "categories_inv p \<longleftrightarrow>
     count_list (pending p) AwaitCategories \<le> 1
   \<and> (count_list (pending p) AwaitCategories = 1 \<longrightarrow> mounted p)
   \<and> ((\<not> mounted p \<or> count_list (pending p) AwaitCategories = 1) \<longrightarrow> categories (view p) = Arr [])"

text \<open>A category value is empty or the option value of a loaded category.\<close>

definition selectable :: "view \<Rightarrow> jstr \<Rightarrow> bool" where
  "selectable v s \<longleftrightarrow>
     s = [] \<or> (case categories v of Arr cs \<Rightarrow> s \<in> set (map (\<lambda>c. int_to_jstr (cat_id c)) cs) | _ \<Rightarrow> False)"

definition selection_inv :: "page \<Rightarrow> bool" where
  "selection_inv p \<longleftrightarrow>
     selectable (view p) (selectedCategory (view p))
   \<and> (\<forall>c. AwaitProducts c \<in> set (pending p) \<longrightarrow> selectable (view p) c)"

text \<open>Every URL posted to the backend is non-empty.\<close>

definition posts_nonempty :: "page \<Rightarrow> bool" where
  "posts_nonempty p \<longleftrightarrow> (\<forall>ep u. Post ep u \<in> set (sent p) \<longrightarrow> u \<noteq> [])"

lemma is_submit_simps [simp]:
  "is_submit (AwaitSubmit u)" "\<not> is_submit (AwaitProducts c)" "\<not> is_submit AwaitCategories"
  by (simp_all add: is_submit_def)

lemma selectable_Nil [simp]: "selectable v []"
  by (simp add: selectable_def)

lemma selectable_cong: "categories v' = categories v \<Longrightarrow> selectable v' s = selectable v s"
  by (simp add: selectable_def)

lemma initial_invariants:
  "submit_inv initial_page \<and> error_inv initial_page \<and> categories_inv initial_page
   \<and> selection_inv initial_page"
  by (simp add: initial_page_def initial_view_def submit_inv_def error_inv_def known_errors_def
      categories_inv_def selection_inv_def)

lemma submit_inv_step:
  assumes "step p e = Some p'" and "submit_inv p"
  shows "submit_inv p'"
  using assms(1)
proof (cases rule: step_SomeE)
  case (deliver i r vp)
  show ?thesis
    using deliver(2)
  proof (cases rule: resume_SomeE)
    case (submit u oc)
    obtain v' ps where h: "handleURLSubmit_resume oc (view p) = (v', ps)"
      by fastforce
    have "length (filter is_submit (del_at i (pending p))) = 0"
      using submit(1) assms(2) deliver(1) length_filter_del_at [of i "pending p" is_submit]
      by (simp add: submit_inv_def)
    then show ?thesis
      using deliver(3) submit(2) h handleURLSubmit_resume_shape [OF h]
      by (auto simp: submit_inv_def)
  next
    case (products c oc)
    then show ?thesis
      using assms(2) deliver length_filter_del_at [of i "pending p" is_submit] getProducts_resume_frame
      by (simp add: submit_inv_def)
  next
    case (categories oc)
    then show ?thesis
      using assms(2) deliver length_filter_del_at [of i "pending p" is_submit] getCategories_resume_frame
      by (simp add: submit_inv_def)
  qed
qed (use assms(2) in \<open>auto simp: submit_inv_def toggleDescription_def le_Suc_eq\<close>)

lemma error_inv_step:
  assumes "step p e = Some p'" and "error_inv p"
  shows "error_inv p'"
  using assms(1)
proof (cases rule: step_SomeE)
  case (deliver i r vp)
  show ?thesis
    using deliver(2)
  proof (cases rule: resume_SomeE)
    case (submit u oc)
    obtain v' ps where h: "handleURLSubmit_resume oc (view p) = (v', ps)"
      by fastforce
    then show ?thesis
      using assms(2) deliver(3) submit(2) handleURLSubmit_resume_shape [OF h]
      by (auto simp: error_inv_def known_errors_def)
  next
    case (products c oc)
    then show ?thesis
      using assms(2) deliver(3) getProducts_resume_frame [of c oc "view p"]
      by (auto simp: error_inv_def known_errors_def)
  next
    case (categories oc)
    then show ?thesis
      using assms(2) deliver(3) getCategories_resume_frame [of oc "view p"]
      by (auto simp: error_inv_def known_errors_def)
  qed
qed (use assms(2) in \<open>auto simp: error_inv_def known_errors_def toggleDescription_def\<close>)

lemma count_pos_nth: "i < length xs \<Longrightarrow> xs ! i = x \<Longrightarrow> 0 < count_list xs x"
  by (metis count_list_0_iff gr0I nth_mem)

lemma categories_inv_step:
  assumes "step p e = Some p'" and "categories_inv p"
  shows "categories_inv p'"
  using assms(1)
proof (cases rule: step_SomeE)
  case (deliver i r vp)
  have cnt: "count_list (pending p) AwaitCategories =
      count_list (del_at i (pending p)) AwaitCategories + (if pending p ! i = AwaitCategories then 1 else 0)"
    using deliver(1) by (rule count_list_del_at)
  show ?thesis
    using deliver(2)
  proof (cases rule: resume_SomeE)
    case (submit u oc)
    obtain v' ps where h: "handleURLSubmit_resume oc (view p) = (v', ps)"
      by fastforce
    then show ?thesis
      using assms(2) deliver(3) submit cnt handleURLSubmit_resume_shape [OF h]
      by (auto simp: categories_inv_def)
  next
    case (products c oc)
    then show ?thesis
      using assms(2) deliver(3) cnt getProducts_resume_frame [of c oc "view p"]
      by (simp add: categories_inv_def)
  next
    case (categories oc)
    moreover have "0 < count_list (pending p) AwaitCategories"
      using deliver(1) categories(1) by (rule count_pos_nth)
    ultimately show ?thesis
      using assms(2) deliver(3) cnt by (auto simp: categories_inv_def)
  qed
next
  case mount
  then show ?thesis
    using assms(2) by (auto simp: categories_inv_def)
qed (use assms(2) in \<open>auto simp: categories_inv_def toggleDescription_def\<close>)

lemma selection_inv_frame:
  assumes "selection_inv p"
    and "categories (view p') = categories (view p)"
    and "selectedCategory (view p') = selectedCategory (view p)"
    and "\<forall>q \<in> set (pending p'). q \<in> set (pending p) \<or> q = AwaitProducts [] \<or> q = AwaitCategories \<or> is_submit q"
  shows "selection_inv p'"
proof -
  have sel: "selectable (view p') = selectable (view p)"
    using assms(2) by (intro ext selectable_cong)
  have "selectable (view p') c" if "AwaitProducts c \<in> set (pending p')" for c
  proof -
    from assms(4) that have "AwaitProducts c \<in> set (pending p) \<or> c = []"
      by (auto simp: is_submit_def)
    then show ?thesis
      using assms(1) sel by (auto simp: selection_inv_def)
  qed
  then show ?thesis
    using assms(1,3) sel by (simp add: selection_inv_def)
qed

lemma selection_inv_step:
  assumes "step p e = Some p'" and "selection_inv p" and "categories_inv p"
  shows "selection_inv p'"
  using assms(1)
proof (cases rule: step_SomeE)
  case mount
  show ?thesis
    by (rule selection_inv_frame [OF assms(2)]) (use mount in auto)
next
  case (input s)
  show ?thesis
    by (rule selection_inv_frame [OF assms(2)]) (use input in auto)
next
  case submit
  show ?thesis
    by (rule selection_inv_frame [OF assms(2)]) (use submit in auto)
next
  case (select s cs)
  have "selectable (view p') = selectable (view p)"
    using select(3) by (intro ext selectable_cong) simp
  moreover have "selectable (view p) s"
    using select(1,2) by (auto simp: selectable_def)
  ultimately show ?thesis
    using assms(2) select(3) by (auto simp: selection_inv_def)
next
  case toggle
  show ?thesis
    by (rule selection_inv_frame [OF assms(2)]) (use toggle in \<open>auto simp: toggleDescription_def\<close>)
next
  case (deliver i r vp)
  have sub: "set (del_at i (pending p)) \<subseteq> set (pending p)"
    by (rule set_del_at_subset)
  show ?thesis
    using deliver(2)
  proof (cases rule: resume_SomeE)
    case (submit u oc)
    obtain v' ps where h: "handleURLSubmit_resume oc (view p) = (v', ps)"
      by fastforce
    show ?thesis
      by (rule selection_inv_frame [OF assms(2)])
        (use deliver(3) submit(2) h sub handleURLSubmit_resume_shape [OF h] in auto)
  next
    case (products c oc)
    show ?thesis
      by (rule selection_inv_frame [OF assms(2)])
        (use deliver(3) products(2) sub getProducts_resume_frame [of c oc "view p"] in auto)
  next
    case (categories oc)
    have "0 < count_list (pending p) AwaitCategories"
      using deliver(1) categories(1) by (rule count_pos_nth)
    then have "categories (view p) = Arr []"
      using assms(3) by (auto simp: categories_inv_def)
    then have nil: "\<And>s. selectable (view p) s \<Longrightarrow> s = []"
      by (simp add: selectable_def)
    have s0: "selectedCategory (view p) = []"
      and c0: "\<forall>c. AwaitProducts c \<in> set (pending p) \<longrightarrow> c = []"
      using nil assms(2) by (simp_all add: selection_inv_def)
    have "\<forall>c. AwaitProducts c \<in> set (del_at i (pending p)) \<longrightarrow> c = []"
      using c0 sub by blast
    then show ?thesis
      using deliver(3) categories(2) s0 getCategories_resume_frame [of oc "view p"]
      by (auto simp: selection_inv_def)
  qed
qed

lemma resume_issues_reload:
  assumes "resume q r v = Some (v', ps)"
  shows "set ps \<subseteq> {AwaitProducts []}"
  using assms
proof (cases rule: resume_SomeE)
  case (submit u oc)
  then show ?thesis
    using handleURLSubmit_resume_shape [of oc v v' ps] by auto
qed auto

lemma posts_nonempty_step:
  assumes "posts_nonempty p" and "step p e = Some p'"
  shows "posts_nonempty p'"
  using assms(2)
proof (cases rule: step_SomeE)
  case (deliver i r vp)
  obtain v' ps where vp: "vp = (v', ps)" by (cases vp)
  then have "set ps \<subseteq> {AwaitProducts []}"
    using deliver(2) resume_issues_reload by blast
  then show ?thesis
    using assms(1) deliver(3) vp by (auto simp: posts_nonempty_def fetchProducts_request_def)
qed (use assms(1) in \<open>auto simp: posts_nonempty_def fetchProducts_request_def
       fetchCategories_request_def submitProductURL_request_def\<close>)

lemma reachable_invariants:
  "reachable p \<Longrightarrow>
     submit_inv p \<and> error_inv p \<and> categories_inv p \<and> selection_inv p \<and> posts_nonempty p"
proof (induction rule: reachable.induct)
  case init
  then show ?case
    using initial_invariants by (simp add: posts_nonempty_def initial_page_def)
next
  case (step p e p')
  then have "submit_inv p" "error_inv p" "categories_inv p" "selection_inv p" "posts_nonempty p"
    by simp_all
  then show ?case
    using submit_inv_step [OF step.hyps(2)] error_inv_step [OF step.hyps(2)]
      categories_inv_step [OF step.hyps(2)] selection_inv_step [OF step.hyps(2)]
      posts_nonempty_step [OF _ step.hyps(2)]
    by simp
qed

subsection \<open>Runs\<close>

lemma run_reachable: "reachable p \<Longrightarrow> run p es = Some p' \<Longrightarrow> reachable p'"
proof (induction es arbitrary: p)
  case Nil
  then show ?case by simp
next
  case (Cons e es)
  then obtain q where q: "step p e = Some q" and r: "run q es = Some p'"
    by (auto split: option.splits)
  from Cons.prems(1) q have "reachable q"
    by (rule reachable.step)
  then show ?case
    using r by (rule Cons.IH)
qed

end
