(* ===== verification/PageProperties.thy ===== *)
theory PageProperties
  imports PageRuntime
begin

text \<open>
  Properties of the running page, over all interleavings of user events and network
  completions: the in-flight flag, the messages that can appear and that they are never
  dismissed, the category selection, filtered reloads, the submission flow, that no empty URL
  is posted, the order of the mount-time completions, and that every pending request can be
  answered.
\<close>

lemma submit_pending_iff:
  "(\<exists>u. AwaitSubmit u \<in> set xs) \<longleftrightarrow> 1 \<le> length (filter is_submit xs)"
proof -
  have "(\<exists>u. AwaitSubmit u \<in> set xs) \<longleftrightarrow> (\<exists>q \<in> set xs. is_submit q)"
  proof
    assume "\<exists>q \<in> set xs. is_submit q"
    then obtain q where q: "q \<in> set xs" and sq: "is_submit q" by blast
    have "\<exists>u. q = AwaitSubmit u"
      using sq by (simp add: is_submit_def split: pending.splits)
    with q show "\<exists>u. AwaitSubmit u \<in> set xs"
      by blast
  qed (use is_submit_simps(1) in blast)
  also have "\<dots> \<longleftrightarrow> filter is_submit xs \<noteq> []"
    by (simp add: filter_empty_conv)
  finally show ?thesis by (simp add: Suc_le_eq)
qed

text \<open>A network failure for each kind of pending request.\<close>

fun fail_reply :: "pending \<Rightarrow> reply" where
  "fail_reply (AwaitSubmit u) = SubmitReply NoReply"
| "fail_reply (AwaitProducts c) = ProductsReply NoReply"
| "fail_reply AwaitCategories = CategoriesReply NoReply"

lemma step_fail_first:
  assumes "pending p = q # qs"
  shows "\<exists>p'. step p (Deliver 0 (fail_reply q)) = Some p' \<and> pending p' = qs"
  using assms
  by (cases q) (simp_all add: view_simps)

lemma drain: "\<exists>es p'. run p es = Some p' \<and> pending p' = []"
proof (induction "pending p" arbitrary: p)
  case Nil
  then have "run p [] = Some p \<and> pending p = []" by simp
  then show ?case by blast
next
  case (Cons q qs)
  from step_fail_first [OF Cons.hyps(2) [symmetric]] obtain p1
    where p1: "step p (Deliver 0 (fail_reply q)) = Some p1" and "pending p1 = qs"
    by blast
  then obtain es p' where "run p1 es = Some p'" and "pending p' = []"
    using Cons.hyps(1) by metis
  with p1 have "run p (Deliver 0 (fail_reply q) # es) = Some p' \<and> pending p' = []"
    by simp
  then show ?case by blast
qed

subsection \<open>Sample pages\<close>

definition shoes :: category where
  "shoes = \<lparr>cat_id = 1, name = js ''Shoes''\<rparr>"

definition sneaker :: product where
  "sneaker = \<lparr>prod_id = 10, title = js ''Sneaker'', description = js ''Canvas'', price = js ''999'',
     category_id = Some 1, size = Some (js ''8,9'')\<rparr>"

definition kettle :: product where
  "kettle = \<lparr>prod_id = 11, title = js ''Kettle'', description = js ''Steel'', price = js ''450'',
     category_id = Some 2, size = None\<rparr>"

definition submitting_page :: page where
  "submitting_page = the (run initial_page [InputChange (js ''http://shop.example/item''), FormSubmit])"

definition selected_page :: page where
  "selected_page = the (run initial_page
     [Mount, Deliver 0 (CategoriesReply (Reply 200 (Arr [shoes]))), SelectChange (int_to_jstr 1)])"

lemmas sample_defs = shoes_def sneaker_def kettle_def initial_page_def initial_view_def
  render_def render_options_def all_categories_option_def option_values_def issue_def
  int_to_jstr_not_Nil view_simps

lemma submitting_page_run:
  "run initial_page [InputChange (js ''http://shop.example/item''), FormSubmit] = Some submitting_page"
  by (simp add: submitting_page_def sample_defs)

lemma submitting_page_reachable: "reachable submitting_page"
  using run_reachable [OF reachable.init submitting_page_run] .

lemma submitting_page_fields:
  "pending submitting_page = [AwaitSubmit (js ''http://shop.example/item'')]
   \<and> isSubmittingURL (view submitting_page) \<and> url (view submitting_page) = js ''http://shop.example/item''"
  by (simp add: submitting_page_def sample_defs)

lemma selected_page_run:
  "run initial_page [Mount, Deliver 0 (CategoriesReply (Reply 200 (Arr [shoes]))), SelectChange (int_to_jstr 1)]
     = Some selected_page"
  by (simp add: selected_page_def sample_defs)

lemma selected_page_reachable: "reachable selected_page"
  using run_reachable [OF reachable.init selected_page_run] .

lemma selected_page_fields:
  "pending selected_page = [AwaitProducts [], AwaitProducts (int_to_jstr 1)]
   \<and> selectedCategory (view selected_page) = int_to_jstr 1
   \<and> categories (view selected_page) = Arr [shoes]"
  by (simp add: selected_page_def sample_defs)

subsection \<open>Properties\<close>

text \<open>
  C7: the in-flight flag. In every reachable state at most one submission is pending, and
  \<open>isSubmittingURL\<close> (which disables the submit button) is true exactly while one is.
\<close>

theorem in_flight_flag:
  assumes "reachable p"
  shows "length (filter is_submit (pending p)) \<le> 1
       \<and> (isSubmittingURL (view p) \<longleftrightarrow> (\<exists>u. AwaitSubmit u \<in> set (pending p)))"
  using reachable_invariants [OF assms] submit_pending_iff [of "pending p"]
  by (auto simp: submit_inv_def)

theorem in_flight_flag_witness:
  "length (filter is_submit (pending submitting_page)) \<le> 1
   \<and> (isSubmittingURL (view submitting_page) \<longleftrightarrow> (\<exists>u. AwaitSubmit u \<in> set (pending submitting_page)))
   \<and> isSubmittingURL (view submitting_page)"
  using in_flight_flag [OF submitting_page_reachable] submitting_page_fields by simp

text \<open>
  C11: "URL is required" is never shown. The input is \<open>required\<close>, so the browser does
  not submit the form while it is empty, and the handler's own empty-URL branch never runs:
  in every reachable state the error slot is empty or holds one of the five failure
  messages of the fetches, the filter and the submission.
\<close>

theorem url_required_never_shown:
  assumes "reachable p"
  shows "error (view p) \<in> set known_errors \<and> error (view p) \<noteq> Some url_required_msg"
proof -
  have "error (view p) \<in> set known_errors"
    using reachable_invariants [OF assms] by (simp add: error_inv_def)
  moreover have "Some url_required_msg \<notin> set known_errors"
    by (simp add: known_errors_def url_required_msg_def submit_failed_msg_def
        fetch_products_failed_msg_def fetch_category_failed_msg_def filter_null_msg_def
        filter_not_function_msg_def)
  ultimately show ?thesis by auto
qed

theorem url_required_never_shown_witness:
  "error (view submitting_page) \<in> set known_errors
   \<and> error (view submitting_page) \<noteq> Some url_required_msg"
  using url_required_never_shown [OF submitting_page_reachable] .

text \<open>
  C17: no empty URL reaches the backend. Every \<open>POST\<close> the page ever sends carries a
  non-empty URL: the browser does not submit the \<open>required\<close> input while it is empty, and
  \<open>handleURLSubmit\<close> rejects an empty URL before calling \<open>submitProductURL\<close>; the
  continuations of a settled request only ever send \<open>GET\<close>s.
\<close>

theorem posted_urls_nonempty:
  assumes "reachable p" and "Post ep u \<in> set (sent p)"
  shows "u \<noteq> []"
  using reachable_invariants [OF assms(1)] assms(2) by (auto simp: posts_nonempty_def)

theorem posted_urls_nonempty_witness:
  "Post API_URL (js ''http://shop.example/item'') \<in> set (sent submitting_page)
   \<and> js ''http://shop.example/item'' \<noteq> []"
proof -
  have "Post API_URL (js ''http://shop.example/item'') \<in> set (sent submitting_page)"
    by (simp add: submitting_page_def sample_defs submitProductURL_request_def)
  then show ?thesis
    using posted_urls_nonempty [OF submitting_page_reachable] by blast
qed

text \<open>
  C21: neither message is dismissed. No step clears the success message once it is shown,
  and the only step that clears a shown error is a form submission (\<open>setError(null)\<close>,
  line 45): no timer, no later fetch and no selection removes either text.
\<close>

theorem messages_not_dismissed:
  assumes "step p e = Some p'"
  shows "(successMessage (view p) \<noteq> [] \<longrightarrow> successMessage (view p') \<noteq> [])
       \<and> (error (view p) \<noteq> None \<and> error (view p') = None \<longrightarrow> e = FormSubmit)"
  using assms
proof (cases rule: step_SomeE)
  case (deliver i r vp)
  from deliver(2) show ?thesis
  proof (cases rule: resume_SomeE)
    case (submit u oc)
    obtain v' ps where h: "handleURLSubmit_resume oc (view p) = (v', ps)"
      by (cases "handleURLSubmit_resume oc (view p)")
    have "successMessage v' = successMessage (view p) \<or> successMessage v' = success_msg"
      using h by (cases "axios_settle oc") (auto simp: view_simps)
    moreover have "error v' = error (view p) \<or> error v' = Some submit_failed_msg"
      using handleURLSubmit_resume_shape [OF h] by blast
    ultimately show ?thesis
      using submit deliver h by (auto simp: success_msg_def)
  next
    case (products c oc)
    then show ?thesis using deliver getProducts_resume_frame [of c oc "view p"]
      by (auto simp: getProducts_resume_def Let_def split: sum.splits)
  next
    case (categories oc)
    then show ?thesis using deliver getCategories_resume_frame [of oc "view p"]
      by (auto simp: getCategories_resume_def split: sum.splits)
  qed
qed (auto simp: toggleDescription_def)

theorem messages_not_dismissed_witness:
  "\<exists>p1 p2. step submitting_page (Deliver 0 (SubmitReply (Reply 201 ()))) = Some p1
     \<and> step p1 (Deliver 0 (ProductsReply NoReply)) = Some p2
     \<and> successMessage (view p2) \<noteq> [] \<and> error (view p2) = Some fetch_products_failed_msg"
proof -
  obtain p1 where s1: "step submitting_page (Deliver 0 (SubmitReply (Reply 201 ()))) = Some p1"
    and m: "successMessage (view p1) \<noteq> []"
    and s2: "\<exists>p2. step p1 (Deliver 0 (ProductsReply NoReply)) = Some p2
               \<and> error (view p2) = Some fetch_products_failed_msg"
    by (simp add: submitting_page_def sample_defs success_msg_def)
  then obtain p2 where "step p1 (Deliver 0 (ProductsReply NoReply)) = Some p2"
    and "error (view p2) = Some fetch_products_failed_msg"
    by blast
  with s1 m messages_not_dismissed [of p1 "Deliver 0 (ProductsReply NoReply)" p2] show ?thesis
    by blast
qed

text \<open>
  C9: the selection always names a loaded category. The select's value is either empty
  ("All Categories") or the option value of a category in the loaded list.
\<close>

theorem selection_names_loaded_category:
  assumes "reachable p"
  shows "selectedCategory (view p) = []
       \<or> (\<exists>cs c. categories (view p) = Arr cs \<and> c \<in> set cs
              \<and> selectedCategory (view p) = int_to_jstr (cat_id c))"
  using reachable_invariants [OF assms]
  by (auto simp: selection_inv_def selectable_def split: jsdata.splits)

theorem selection_names_loaded_category_witness:
  "selectedCategory (view selected_page) = []
   \<or> (\<exists>cs c. categories (view selected_page) = Arr cs \<and> c \<in> set cs
          \<and> selectedCategory (view selected_page) = int_to_jstr (cat_id c))"
  using selection_names_loaded_category [OF selected_page_reachable] .

text \<open>
  C8: a filtered reload shows only its category. When a products request that was started
  for a non-empty category value settles successfully with an array, the value names a
  loaded category and the view holds exactly that category's products, in backend order.
\<close>

theorem filtered_reload:
  assumes "reachable p" and "i < length (pending p)" and "pending p ! i = AwaitProducts c"
    and "c \<noteq> []" and "200 \<le> s" and "s < 300"
  shows "\<exists>p' cs k. step p (Deliver i (ProductsReply (Reply s (Arr ps)))) = Some p'
           \<and> categories (view p) = Arr cs \<and> k \<in> set cs \<and> c = int_to_jstr (cat_id k)
           \<and> products (view p') = Arr (filter (\<lambda>q. category_id q = Some (cat_id k)) ps)"
proof -
  have "AwaitProducts c \<in> set (pending p)"
    using assms(2,3) nth_mem by fastforce
  then have "selectable (view p) c"
    using reachable_invariants [OF assms(1)] by (simp add: selection_inv_def)
  then obtain cs k where cs: "categories (view p) = Arr cs" and k: "k \<in> set cs"
    and c: "c = int_to_jstr (cat_id k)"
    using assms(4) by (auto simp: selectable_def split: jsdata.splits)
  define v' where "v' = (view p)\<lparr>products := Arr (filter (\<lambda>q. category_id q = Some (cat_id k)) ps)\<rparr>"
  have "getProducts_resume c (Reply s (Arr ps)) (view p) = v'"
    using assms(5,6) c by (simp add: getProducts_resume_ok v'_def)
  then have "step p (Deliver i (ProductsReply (Reply s (Arr ps))))
      = Some (issue (v', []) (p\<lparr>pending := del_at i (pending p)\<rparr>))"
    using assms(2,3) by simp
  moreover have "products (view (issue (v', []) (p\<lparr>pending := del_at i (pending p)\<rparr>)))
      = Arr (filter (\<lambda>q. category_id q = Some (cat_id k)) ps)"
    by (simp add: v'_def)
  ultimately show ?thesis
    using cs k c by blast
qed

theorem filtered_reload_witness:
  "\<exists>p' cs k. step selected_page (Deliver 1 (ProductsReply (Reply 200 (Arr [sneaker, kettle])))) = Some p'
     \<and> categories (view selected_page) = Arr cs \<and> k \<in> set cs \<and> int_to_jstr 1 = int_to_jstr (cat_id k)
     \<and> products (view p') = Arr (filter (\<lambda>q. category_id q = Some (cat_id k)) [sneaker, kettle])"
  using filtered_reload [OF selected_page_reachable, of 1 "int_to_jstr 1" 200 "[sneaker, kettle]"]
    selected_page_fields int_to_jstr_not_Nil
  by (simp add: shoes_def)

text \<open>
  C10: every pending request can be answered, and then nothing is in flight. From every
  reachable state some sequence of completions empties the pending set, and the in-flight
  flag is then false: the submit button cannot stay disabled once the network has answered.
\<close>

theorem pending_requests_drain:
  assumes "reachable p"
  shows "\<exists>es p'. run p es = Some p' \<and> pending p' = [] \<and> \<not> isSubmittingURL (view p')"
proof -
  obtain es p' where r: "run p es = Some p'" and e: "pending p' = []"
    using drain by blast
  have "reachable p'"
    using assms r by (rule run_reachable)
  then have "\<not> isSubmittingURL (view p')"
    using reachable_invariants e by (auto simp: submit_inv_def)
  with r e show ?thesis by blast
qed

theorem pending_requests_drain_witness:
  "\<exists>es p'. run submitting_page es = Some p' \<and> pending p' = [] \<and> \<not> isSubmittingURL (view p')"
  using pending_requests_drain [OF submitting_page_reachable] .

text \<open>
  C1: a successful submission. When the pending submission settles with a 2xx response,
  the input is cleared, the success message is set, the in-flight flag is cleared, and
  exactly one request follows: an unfiltered \<open>GET\<close> of the products.
\<close>

theorem submit_success:
  assumes "i < length (pending p)" and "pending p ! i = AwaitSubmit u"
    and "200 \<le> s" and "s < 300"
  shows "\<exists>p'. step p (Deliver i (SubmitReply (Reply s ()))) = Some p'
           \<and> url (view p') = [] \<and> successMessage (view p') = js ''Product submitted successfully!''
           \<and> \<not> isSubmittingURL (view p')
           \<and> sent p' = sent p @ [Get API_URL]
           \<and> pending p' = del_at i (pending p) @ [AwaitProducts []]"
  using assms
  by (simp add: view_simps success_msg_def fetchProducts_request_def)

theorem submit_success_witness:
  "\<exists>p'. step submitting_page (Deliver 0 (SubmitReply (Reply 201 ()))) = Some p'
     \<and> url (view p') = [] \<and> successMessage (view p') = js ''Product submitted successfully!''
     \<and> \<not> isSubmittingURL (view p')
     \<and> sent p' = sent submitting_page @ [Get API_URL]
     \<and> pending p' = del_at 0 (pending submitting_page) @ [AwaitProducts []]"
  using submit_success [of 0 submitting_page "js ''http://shop.example/item''" 201] submitting_page_fields
  by simp

text \<open>
  C2: a failed submission. When the pending submission is rejected (any non-2xx status or
  no response), the input keeps its text, the error is the submission failure message, the
  in-flight flag is cleared, no request is sent, and the loaded data stays.
\<close>

theorem submit_failure:
  assumes "i < length (pending p)" and "pending p ! i = AwaitSubmit u"
    and "axios_settle r = None"
  shows "\<exists>p'. step p (Deliver i (SubmitReply r)) = Some p'
           \<and> url (view p') = url (view p)
           \<and> error (view p') = Some (js ''Failed to submit URL. Please try again.'')
           \<and> \<not> isSubmittingURL (view p') \<and> sent p' = sent p
           \<and> products (view p') = products (view p) \<and> categories (view p') = categories (view p)"
  using assms by (simp add: view_simps submit_failed_msg_def)

theorem submit_failure_witness:
  "\<exists>p'. step submitting_page (Deliver 0 (SubmitReply (Reply 500 ()))) = Some p'
     \<and> url (view p') = url (view submitting_page)
     \<and> error (view p') = Some (js ''Failed to submit URL. Please try again.'')
     \<and> \<not> isSubmittingURL (view p') \<and> sent p' = sent submitting_page
     \<and> products (view p') = products (view submitting_page)
     \<and> categories (view p') = categories (view submitting_page)"
  using submit_failure [of 0 submitting_page "js ''http://shop.example/item''" "Reply 500 ()"]
    submitting_page_fields
  by simp

definition mounted_page :: page where
  "mounted_page = the (step initial_page Mount)"

lemma mounted_page_eq:
  "mounted_page = \<lparr>view = initial_view, pending = [AwaitCategories, AwaitProducts []],
     sent = [fetchCategories_request, fetchProducts_request], mounted = True\<rparr>"
  by (simp add: mounted_page_def initial_page_def issue_def)

text \<open>
  C18: the two mount-time fetches are independent. Whichever of them completes first, the
  page ends in the same state, unless both fail: then the one error slot keeps only the
  message of the fetch that failed last, so the other failure is not reported.
\<close>

theorem mount_fetch_order:
  "(axios_settle rc \<noteq> None \<or> axios_settle rp \<noteq> None \<longrightarrow>
      run mounted_page [Deliver 0 (CategoriesReply rc), Deliver 0 (ProductsReply rp)]
    = run mounted_page [Deliver 1 (ProductsReply rp), Deliver 0 (CategoriesReply rc)])
   \<and> (axios_settle rc = None \<and> axios_settle rp = None \<longrightarrow>
      map_option (\<lambda>p. error (view p))
        (run mounted_page [Deliver 0 (CategoriesReply rc), Deliver 0 (ProductsReply rp)])
        = Some (Some fetch_products_failed_msg)
    \<and> map_option (\<lambda>p. error (view p))
        (run mounted_page [Deliver 1 (ProductsReply rp), Deliver 0 (CategoriesReply rc)])
        = Some (Some fetch_category_failed_msg))"
  by (cases "axios_settle rc"; cases "axios_settle rp")
     (simp_all add: mounted_page_eq issue_def getCategories_resume_ok getCategories_resume_fail
       getProducts_resume_ok getProducts_resume_fail)

theorem mount_fetch_order_witness:
  "run mounted_page [Deliver 0 (CategoriesReply NoReply), Deliver 0 (ProductsReply (Reply 200 (Arr [sneaker])))]
     = run mounted_page [Deliver 1 (ProductsReply (Reply 200 (Arr [sneaker]))), Deliver 0 (CategoriesReply NoReply)]
   \<and> map_option (\<lambda>p. error (view p))
       (run mounted_page [Deliver 0 (CategoriesReply NoReply), Deliver 0 (ProductsReply NoReply)])
       = Some (Some fetch_products_failed_msg)
   \<and> map_option (\<lambda>p. error (view p))
       (run mounted_page [Deliver 1 (ProductsReply NoReply), Deliver 0 (CategoriesReply NoReply)])
       = Some (Some fetch_category_failed_msg)"
  using mount_fetch_order [of NoReply "Reply 200 (Arr [sneaker])"] mount_fetch_order [of NoReply NoReply]
  by simp

text \<open>
  C19: a failed fetch keeps what was loaded. When a pending products or categories request
  fails, only the error slot changes (to that fetch's message) and the request leaves the
  pending set; the products, categories, selection and input stay as they were.
\<close>

theorem fetch_failure_keeps_data:
  assumes "i < length (pending p)" and "axios_settle rp = None" and "axios_settle rc = None"
  shows "(pending p ! i = AwaitProducts c \<longrightarrow> step p (Deliver i (ProductsReply rp))
            = Some (p\<lparr>view := (view p)\<lparr>error := Some (js ''Failed to fetch products. Please try again.'')\<rparr>,
                      pending := del_at i (pending p)\<rparr>))
       \<and> (pending p ! i = AwaitCategories \<longrightarrow> step p (Deliver i (CategoriesReply rc))
            = Some (p\<lparr>view := (view p)\<lparr>error := Some (js ''Failed to fetch category. Please try again.'')\<rparr>,
                      pending := del_at i (pending p)\<rparr>))"
  using assms
  by (simp add: getProducts_resume_fail getCategories_resume_fail issue_def
      fetch_products_failed_msg_def fetch_category_failed_msg_def)

theorem fetch_failure_keeps_data_witness:
  "step mounted_page (Deliver 1 (ProductsReply NoReply))
     = Some (mounted_page\<lparr>view := (view mounted_page)\<lparr>error := Some (js ''Failed to fetch products. Please try again.'')\<rparr>,
                           pending := del_at 1 (pending mounted_page)\<rparr>)
   \<and> step mounted_page (Deliver 0 (CategoriesReply NoReply))
     = Some (mounted_page\<lparr>view := (view mounted_page)\<lparr>error := Some (js ''Failed to fetch category. Please try again.'')\<rparr>,
                           pending := del_at 0 (pending mounted_page)\<rparr>)"
proof -
  have "1 < length (pending mounted_page)" and "0 < length (pending mounted_page)"
    and "pending mounted_page ! 1 = AwaitProducts []" and "pending mounted_page ! 0 = AwaitCategories"
    by (simp_all add: mounted_page_eq)
  then show ?thesis
    using fetch_failure_keeps_data [of 1 mounted_page NoReply NoReply]
      fetch_failure_keeps_data [of 0 mounted_page NoReply NoReply]
    by simp
qed

end
