(* ===== verification/SubmissionSpec.thy ===== *)
theory SubmissionSpec
  imports PageProperties
begin

text \<open>
  The abstract contract of the URL form, as the spec states it: a two-state machine,
  \<open>Idle\<close> and \<open>Submitting\<close>, entered by a form submission and left when the submission's
  request settles. \<open>abs_submission\<close> reads the state of the machine off the page's
  \<open>isSubmittingURL\<close> slot; the refinement theorem shows that every step of the page is a
  stutter or a step of the abstract machine, taken by the event the contract names.
\<close>

datatype submission_state = Idle | Submitting

inductive sub_step :: "submission_state \<Rightarrow> submission_state \<Rightarrow> bool" where
  start: "sub_step Idle Submitting"
| settle: "sub_step Submitting Idle"

inductive_simps sub_step_iff: "sub_step a b"

definition abs_submission :: "page \<Rightarrow> submission_state" where
  "abs_submission p = (if isSubmittingURL (view p) then Submitting else Idle)"

text \<open>
  C12: the page refines the spec's submission machine. Every transition of the page either
  keeps the abstract state or makes a step of the machine; the step to \<open>Submitting\<close> is
  taken only by a form submission, and the step back to \<open>Idle\<close> only by the reply to the
  submission request.
\<close>

theorem submission_refines_spec:
  assumes "step p e = Some p'"
  shows "(abs_submission p' = abs_submission p \<or> sub_step (abs_submission p) (abs_submission p'))
       \<and> (abs_submission p = Idle \<and> abs_submission p' = Submitting \<longrightarrow> e = FormSubmit)
       \<and> (abs_submission p = Submitting \<and> abs_submission p' = Idle
          \<longrightarrow> (\<exists>i r. e = Deliver i (SubmitReply r)))"
  using assms
proof (cases rule: step_SomeE)
  case (deliver i r vp)
  from deliver(2) show ?thesis
  proof (cases rule: resume_SomeE)
    case (submit u oc)
    obtain v' ps where h: "handleURLSubmit_resume oc (view p) = (v', ps)"
      by (cases "handleURLSubmit_resume oc (view p)")
    have "\<not> isSubmittingURL v'"
      using handleURLSubmit_resume_shape [OF h] by simp
    with submit deliver h show ?thesis
      by (auto simp: abs_submission_def sub_step_iff)
  next
    case (products c oc)
    then show ?thesis using deliver
      by (simp add: abs_submission_def getProducts_resume_frame)
  next
    case (categories oc)
    then show ?thesis using deliver
      by (simp add: abs_submission_def getCategories_resume_frame)
  qed
qed (auto simp: abs_submission_def sub_step_iff toggleDescription_def)

theorem submission_refines_spec_witness:
  "\<exists>p'. step submitting_page (Deliver 0 (SubmitReply (Reply 201 ()))) = Some p'
     \<and> abs_submission submitting_page = Submitting \<and> abs_submission p' = Idle
     \<and> sub_step (abs_submission submitting_page) (abs_submission p')"
proof -
  obtain p' where s: "step submitting_page (Deliver 0 (SubmitReply (Reply 201 ()))) = Some p'"
    and i: "\<not> isSubmittingURL (view p')"
    by (simp add: submitting_page_def sample_defs)
  have "abs_submission submitting_page = Submitting" "abs_submission p' = Idle"
    using submitting_page_fields i by (simp_all add: abs_submission_def)
  with submission_refines_spec [OF s] s show ?thesis
    by auto
qed

end
