(* ===== verification/Spec2Isabelle.thy ===== *)
theory Spec2Isabelle
  imports SubmissionSpec
begin

text \<open>
  \<^bold>\<open>Verification of the product page of scraper_product_frontend.\<close>

  \<^bold>\<open>The program.\<close> Two source files. \<open>src/src/component/ProductURl.tsx\<close> is the API
  client: \<open>submitProductURL\<close>, \<open>fetchProducts\<close> and \<open>fetchCategories\<close> each make one
  axios request to a fixed local backend and turn any failure into an \<open>Error\<close> with a
  fixed message. \<open>src/src/component/Product.tsx\<close> is the React component \<open>Product\<close>:
  eight state slots, a mount effect that starts the categories and the products fetch, a
  URL form whose submission posts the URL and reloads the products, a category select whose
  change reloads the products and filters them by \<open>category_id === Number(value)\<close>, and a
  grid of cards with a truncated, expandable description (one flag for all cards), a price
  badge and size buttons. Components interact by direct calls; the view owns all state; the
  network completes requests asynchronously, in any order.

  \<^bold>\<open>Library layout.\<close>
  \<^item> \<open>Prelude\<close>: JS strings as lists of UTF-16 code units (\<open>jstr\<close>, \<open>16 word list\<close>),
    literals (\<open>js\<close>), JSON bodies (\<open>jsdata\<close>: array, null, other), truthiness, the
    \<open>del_at\<close> list operation, and shared list facts.
  \<^item> \<open>ApiClient\<close>: the three client functions, each split at its \<open>await\<close> into the
    request it sends and the handling of the settled axios outcome (\<open>catch_as\<close>); axios's
    default status check (\<open>axios_settle\<close>).
  \<^item> \<open>JsString\<close>, \<open>JsNumber\<close>: the ECMAScript built-ins the page calls (\<open>trim\<close>,
    \<open>split\<close>, \<open>Number\<close> on strings, integer \<open>toString\<close>), from ECMA-262.
  \<^item> \<open>ProductView\<close>: records \<open>category\<close>, \<open>product\<close>, \<open>view\<close> (the \<open>useState\<close>
    slots, lines 5 to 12), and one definition per handler segment: \<open>getProducts\<close>,
    \<open>getCategories\<close>, \<open>handleURLSubmit\<close> with their \<open>_resume\<close> parts, \<open>filter_products\<close>,
    \<open>handleCategoryChange\<close>, \<open>mount_effect\<close>, \<open>toggleDescription\<close>, \<open>setUrl\<close>. A
    segment returns the new view and the continuations it leaves pending (\<open>pending\<close>).
  \<^item> \<open>Render\<close>: the JSX as \<open>render :: view \<Rightarrow> jstr + page_dom\<close>, with
    \<open>truncateDescription\<close>, \<open>render_card\<close>, \<open>render_sizes\<close>, \<open>render_grid\<close>,
    \<open>render_options\<close>; a TypeError from \<open>categories.map\<close> is \<open>Inl\<close>.
  \<^item> \<open>PageRuntime\<close>: the page as a state machine. State \<open>page\<close> = view, pending
    continuations, log of sent requests, mounted flag. Events: mount, input change, form
    submit, select change, toggle click, and delivery of the reply to any pending request.
    \<open>step\<close> is the transition function; the DOM's \<open>disabled\<close>, \<open>required\<close>, the rendered
    options and the rendered toggle decide which user events exist. \<open>reachable\<close> is the
    inductive set of states of all interleavings, \<open>run\<close> executes an event list. Four
    invariants (\<open>submit_inv\<close>, \<open>error_inv\<close>, \<open>categories_inv\<close>, \<open>selection_inv\<close>)
    are proved for every reachable state by rule induction, one preservation lemma each.
  \<^item> \<open>PageProperties\<close>: the properties of the running page.
  \<^item> \<open>SubmissionSpec\<close>: the spec's two-state machine of the URL form (\<open>Idle\<close>,
    \<open>Submitting\<close>), the abstraction \<open>abs_submission\<close> that reads it off the
    \<open>isSubmittingURL\<close> slot, and the refinement of that machine by \<open>step\<close>.
  \<^item> This theory: end-to-end runs that show where the code departs from what the spec says.

  \<^bold>\<open>What is proved.\<close> Client: failures are opaque, each function with its own fixed
  message. Built-ins (lemmas the components use): \<open>trim\<close> returns the whitespace-free infix,
  \<open>split\<close>/\<open>join\<close> round trip, \<open>Number\<close> inverts the integer rendering of category ids.
  Handlers: the empty-URL branch, the category filter keeps exactly the matching products in
  order. Rendering: the Read more control and the collapsed text, the placeholder, size
  buttons, the shared expansion flag, the crash exactly on a non-array category list, and
  that each option of the select filters its own category. Runtime: at most one submission
  in flight and the flag tracks it; "URL is required" never appears; no empty URL is ever
  posted; neither message is ever dismissed, except the error by a new submission; the
  selection always names a loaded category; a filtered reload shows only its category; every
  pending request can be answered and the flag then drops; the effect of a successful and of
  a failed submission; the order independence of the two mount fetches unless both fail;
  failed fetches keep loaded data; every step of the page is a stutter or a step of the
  spec's submission machine, taken by the event the spec names. This theory shows, by
  explicit chains of steps from reachable states, the three departures from the spec: the
  reload after a submission ignores the selection, the reloads of two category changes
  race, and a non-array categories body crashes the page. The proofs of the runtime go through two elimination rules, \<open>step_SomeE\<close>
  (one case per event, recording the event) and \<open>resume_SomeE\<close> (one case per kind of
  pending request), and one frame lemma per resumed segment.

  \<^bold>\<open>Bounds and abstractions.\<close> No fuel is needed: every definition is total and
  structurally recursive, and the only unbounded behaviour, the network, is an input (the
  outcome of each request). Numbers are exact rationals; JS doubles agree with them on the
  integer ids below \<open>2^53\<close>. The \<open>type="url"\<close> validity check of the browser is not
  modelled, which admits more submissions than a browser does. A submission's response body
  is ignored by the code and modelled as \<open>unit\<close>.

  \<^bold>\<open>Not modelled.\<close> axios and the backend beyond the outcome of a request (external); CSS
  classes and layout of the JSX (presentation only); React's StrictMode double effects and
  updates after unmount (the code has no guard and nothing observable depends on them);
  malformed elements inside a JSON array (assumed to have the documented fields).

  \<^bold>\<open>Planned extensions.\<close> A refinement of the whole view against an abstract catalogue
  (fetched set, selection, shown set) that states where the departures shown below break it;
  further properties of the request log \<open>sent\<close> (each continuation sends its request once, in
  the order of issue); a model of the browser's \<open>type="url"\<close> validity check.
\<close>

subsection \<open>End-to-end runs\<close>

definition garden :: category where
  "garden = \<lparr>cat_id = 2, name = js ''Kitchen''\<rparr>"

definition filtered_submission :: "event list" where
  "filtered_submission =
     [Mount, Deliver 0 (CategoriesReply (Reply 200 (Arr [shoes]))),
      Deliver 0 (ProductsReply (Reply 200 (Arr [sneaker, kettle]))), SelectChange (int_to_jstr 1),
      Deliver 0 (ProductsReply (Reply 200 (Arr [sneaker, kettle]))),
      InputChange (js ''http://shop.example/new''), FormSubmit]"

definition two_categories_loaded :: "event list" where
  "two_categories_loaded =
     [Mount, Deliver 0 (CategoriesReply (Reply 200 (Arr [shoes, garden]))),
      Deliver 0 (ProductsReply (Reply 200 (Arr [sneaker, kettle])))]"

definition null_categories :: "event list" where
  "null_categories = [Mount, Deliver 0 (CategoriesReply (Reply 200 JNull))]"

lemmas run_defs = sample_defs garden_def

lemma null_categories_run:
  "map_option (\<lambda>p. categories (view p)) (run initial_page null_categories) = Some JNull"
  by (simp add: null_categories_def run_defs)

lemma reachable_of_run:
  "run initial_page es = Some p \<Longrightarrow> reachable p"
  by (rule run_reachable [OF reachable.init])

text \<open>
  C13: a successful submission drops the category filter. On a page that shows category 1
  and has only the submission in flight, the reply to the submission starts an unfiltered
  reload (\<open>getProducts()\<close>, line 49) although the select still names category 1; when
  that reload arrives the grid shows a product of category 2. This contradicts the spec's
  invariant that the rendered set is the fetched set filtered by the selected category.
\<close>

theorem submit_reload_ignores_selected_category:
  "\<exists>p u p' p''. reachable p \<and> selectedCategory (view p) = int_to_jstr 1 \<and> pending p = [AwaitSubmit u]
     \<and> step p (Deliver 0 (SubmitReply (Reply 201 ()))) = Some p' \<and> pending p' = [AwaitProducts []]
     \<and> step p' (Deliver 0 (ProductsReply (Reply 200 (Arr [sneaker, kettle])))) = Some p''
     \<and> selectedCategory (view p'') = int_to_jstr 1
     \<and> (\<exists>d. render (view p'') = Inr d \<and> grid d = Cards (map (render_card False) [sneaker, kettle]))
     \<and> category_id kettle \<noteq> Some 1"
proof -
  obtain p p' p'' where r: "run initial_page filtered_submission = Some p"
    and f: "selectedCategory (view p) = int_to_jstr 1" "pending p = [AwaitSubmit (js ''http://shop.example/new'')]"
    and s1: "step p (Deliver 0 (SubmitReply (Reply 201 ()))) = Some p'" "pending p' = [AwaitProducts []]"
    and s2: "step p' (Deliver 0 (ProductsReply (Reply 200 (Arr [sneaker, kettle])))) = Some p''"
      "products (view p'') = Arr [sneaker, kettle]" "categories (view p'') = Arr [shoes]"
      "selectedCategory (view p'') = int_to_jstr 1" "\<not> showFullDescription (view p'')"
  proof -
    have "\<exists>p. run initial_page filtered_submission = Some p
         \<and> selectedCategory (view p) = int_to_jstr 1
         \<and> pending p = [AwaitSubmit (js ''http://shop.example/new'')]
         \<and> (\<exists>p'. step p (Deliver 0 (SubmitReply (Reply 201 ()))) = Some p'
              \<and> pending p' = [AwaitProducts []] \<and> selectedCategory (view p') = int_to_jstr 1
              \<and> (\<exists>p''. step p' (Deliver 0 (ProductsReply (Reply 200 (Arr [sneaker, kettle])))) = Some p''
                   \<and> products (view p'') = Arr [sneaker, kettle] \<and> categories (view p'') = Arr [shoes]
                   \<and> selectedCategory (view p'') = int_to_jstr 1 \<and> \<not> showFullDescription (view p'')))"
      by (simp add: filtered_submission_def run_defs)
    then show ?thesis using that by blast
  qed
  obtain d where d: "render (view p'') = Inr d"
    using render_Inr_iff s2(3) by blast
  have "grid d = Cards (map (render_card False) [sneaker, kettle])"
    using grid_render [OF d] s2(2,5) by (simp add: render_grid_def)
  moreover have "reachable p"
    using r by (rule reachable_of_run)
  moreover have "category_id kettle \<noteq> Some 1"
    by (simp add: kettle_def)
  ultimately show ?thesis
    using d f s1 s2(1,4) by blast
qed

text \<open>
  C14: replies to two category changes race. From a page with no request in flight, the
  user selects category 1 and then category 2; each change starts its own reload and
  neither is cancelled. When the reply for category 1 arrives after the reply for
  category 2, it overwrites \<open>products\<close>: the select names category 2 while the grid
  shows the products of category 1.
\<close>

theorem category_replies_race:
  "\<exists>p p1 p2 p3 p4. reachable p \<and> pending p = []
     \<and> step p (SelectChange (int_to_jstr 1)) = Some p1
     \<and> step p1 (SelectChange (int_to_jstr 2)) = Some p2
     \<and> pending p2 = [AwaitProducts (int_to_jstr 1), AwaitProducts (int_to_jstr 2)]
     \<and> step p2 (Deliver 1 (ProductsReply (Reply 200 (Arr [sneaker, kettle])))) = Some p3
     \<and> step p3 (Deliver 0 (ProductsReply (Reply 200 (Arr [sneaker, kettle])))) = Some p4
     \<and> selectedCategory (view p4) = int_to_jstr 2 \<and> products (view p4) = Arr [sneaker]
     \<and> category_id sneaker = Some 1"
proof -
  obtain p where r: "run initial_page two_categories_loaded = Some p" and q: "pending p = []"
    and steps: "\<exists>p1 p2 p3 p4. step p (SelectChange (int_to_jstr 1)) = Some p1
     \<and> step p1 (SelectChange (int_to_jstr 2)) = Some p2
     \<and> pending p2 = [AwaitProducts (int_to_jstr 1), AwaitProducts (int_to_jstr 2)]
     \<and> step p2 (Deliver 1 (ProductsReply (Reply 200 (Arr [sneaker, kettle])))) = Some p3
     \<and> step p3 (Deliver 0 (ProductsReply (Reply 200 (Arr [sneaker, kettle])))) = Some p4
     \<and> selectedCategory (view p4) = int_to_jstr 2 \<and> products (view p4) = Arr [sneaker]"
  proof -
    have "\<exists>p. run initial_page two_categories_loaded = Some p \<and> pending p = []
         \<and> (\<exists>p1. step p (SelectChange (int_to_jstr 1)) = Some p1
         \<and> (\<exists>p2. step p1 (SelectChange (int_to_jstr 2)) = Some p2
              \<and> pending p2 = [AwaitProducts (int_to_jstr 1), AwaitProducts (int_to_jstr 2)]
         \<and> (\<exists>p3. step p2 (Deliver 1 (ProductsReply (Reply 200 (Arr [sneaker, kettle])))) = Some p3
              \<and> products (view p3) = Arr [kettle]
         \<and> (\<exists>p4. step p3 (Deliver 0 (ProductsReply (Reply 200 (Arr [sneaker, kettle])))) = Some p4
              \<and> selectedCategory (view p4) = int_to_jstr 2 \<and> products (view p4) = Arr [sneaker]))))"
      by (simp add: two_categories_loaded_def run_defs)
    then show ?thesis using that by blast
  qed
  have "reachable p"
    using r by (rule reachable_of_run)
  moreover have "category_id sneaker = Some 1"
    by (simp add: sneaker_def)
  ultimately show ?thesis
    using q steps by blast
qed

text \<open>
  C15: the render crash is reachable. A 2xx categories response whose body is JSON
  \<open>null\<close> (or any non-array) is stored as is, and the next render throws in
  \<open>categories.map\<close>, taking the whole page down.
\<close>

theorem null_categories_crash_reachable:
  "\<exists>p m. reachable p \<and> render (view p) = Inl m"
proof -
  obtain p where r: "run initial_page null_categories = Some p" and c: "categories (view p) = JNull"
    using null_categories_run by (cases "run initial_page null_categories") auto
  have "reachable p"
    using r by (rule reachable_of_run)
  moreover have "\<exists>m. render (view p) = Inl m"
    using c by (simp add: render_def render_options_def)
  ultimately show ?thesis by blast
qed

end
